theory Spec2Isabelle
  imports Main "HOL-Library.Extended_Nat" "HOL-Library.Multiset"
begin

section \<open>Strings and paths\<close>

text \<open>
  Python strings are modelled as \<open>string\<close>; a \<open>char\<close> stands for a code point below
  256. On these code points \<open>str.lower\<close> is closed; \<open>str.upper\<close> is not (three
  characters leave the range), which \<open>upper_char\<close> spells out.
\<close>

type_synonym path = string

definition code :: "char \<Rightarrow> nat" where
  "code c = of_char c"

definition isspace :: "char \<Rightarrow> bool" where
  "isspace c = (code c \<in> {9, 10, 11, 12, 13, 28, 29, 30, 31, 32, 133, 160})"

definition strip :: "string \<Rightarrow> string" where
  "strip s = rev (dropWhile isspace (rev (dropWhile isspace s)))"

definition lower_char :: "char \<Rightarrow> char" where
  "lower_char c =
     (let n = code c in
      if (65 \<le> n \<and> n \<le> 90) \<or> (192 \<le> n \<and> n \<le> 222 \<and> n \<noteq> 215)
      then char_of (n + 32) else c)"

definition lower :: "string \<Rightarrow> string" where
  "lower s = map lower_char s"

text \<open>
  \<open>upper_char\<close> returns a string: the sharp s (223) becomes two letters. The micro sign
  (181) and the y with diaeresis (255) map to code points above 255 in Python; they are
  kept as they are here, which like Python's result is no ASCII letter.
\<close>

definition upper_char :: "char \<Rightarrow> string" where
  "upper_char c =
     (let n = code c in
      if n = 223 then ''SS''
      else if (97 \<le> n \<and> n \<le> 122) \<or> (224 \<le> n \<and> n \<le> 254 \<and> n \<noteq> 247)
      then [char_of (n - 32)] else [c])"

definition upper :: "string \<Rightarrow> string" where
  "upper s = concat (map upper_char s)"

text \<open>\<open>str.capitalize\<close>: the first character in title case, the rest in lower case.\<close>

definition title_char :: "char \<Rightarrow> string" where
  "title_char c = (if code c = 223 then ''Ss'' else upper_char c)"

definition capitalize :: "string \<Rightarrow> string" where
  "capitalize s = (case s of [] \<Rightarrow> [] | c # cs \<Rightarrow> title_char c @ lower cs)"

subsection \<open>\<open>os.path\<close> (POSIX flavour)\<close>

text \<open>\<open>str.rfind\<close> for a single character: the last index holding it, or \<open>-1\<close>.\<close>

fun rfind_from :: "nat \<Rightarrow> char \<Rightarrow> string \<Rightarrow> int \<Rightarrow> int" where
  "rfind_from i c [] found = found"
| "rfind_from i c (x # xs) found = rfind_from (Suc i) c xs (if x = c then int i else found)"

definition rfind :: "string \<Rightarrow> char \<Rightarrow> int" where
  "rfind p c = rfind_from 0 c p (- 1)"

text \<open>
  \<open>os.path.splitext\<close>: the extension starts at the last dot, provided that dot comes
  after the last separator and some character between the separator and the dot is not
  a dot (leading dots do not start an extension).
\<close>

definition splitext :: "path \<Rightarrow> string \<times> string" where
  "splitext p =
     (let sepIndex = rfind p CHR ''/'';
          dotIndex = rfind p CHR ''.''
      in if dotIndex > sepIndex \<and>
            list_ex (\<lambda>k. p ! k \<noteq> CHR ''.'') [nat (sepIndex + 1) ..< nat dotIndex]
         then (take (nat dotIndex) p, drop (nat dotIndex) p)
         else (p, []))"

text \<open>\<open>os.path.join\<close> of two components.\<close>

definition join :: "path \<Rightarrow> path \<Rightarrow> path" where
  "join a b =
     (if b \<noteq> [] \<and> hd b = CHR ''/'' then b
      else if a = [] \<or> last a = CHR ''/'' then a @ b
      else a @ ''/'' @ b)"

section \<open>Constants of the scripts\<close>

definition EXTENSIONS_SUPPORTED :: "string list" where
  "EXTENSIONS_SUPPORTED =
     [''.mp3'', ''.mp4'', ''.mpeg'', ''.mpg'', ''.mpga'', ''.m4a'', ''.wav'', ''.webm'',
      ''.mkv'', ''.avi'', ''.flv'', ''.mov'', ''.wmv'', ''.3gp'', ''.3g2'', ''.vob'',
      ''.flac'', ''.aac'', ''.ogg'', ''.wma'', ''.ac3'', ''.dts'', ''.mmf'', ''.m4r'',
      ''.mp2'', ''.wv'', ''.asf'', ''.f4v'', ''.m2ts'', ''.mts'', ''.rm'', ''.rmvb'',
      ''.swf'', ''.wtv'']"

definition EXTENSIONS_REQUIRING_CONVERSION :: "string list" where
  "EXTENSIONS_REQUIRING_CONVERSION =
     [''.mkv'', ''.avi'', ''.flv'', ''.mov'', ''.wmv'', ''.3gp'', ''.3g2'', ''.vob'',
      ''.flac'', ''.aac'', ''.ogg'', ''.wma'', ''.ac3'', ''.dts'', ''.mmf'', ''.m4r'',
      ''.mp2'', ''.wv'', ''.asf'', ''.f4v'', ''.m2ts'', ''.mts'', ''.rm'', ''.rmvb'',
      ''.swf'', ''.wtv'']"

definition AVAILABLE_MODELS :: "string list" where
  "AVAILABLE_MODELS = [''tiny'', ''base'', ''small'', ''medium'', ''large-v2'', ''large-v3'']"

definition AVAILABLE_LANGUAGES :: "string list" where
  "AVAILABLE_LANGUAGES =
     [''Afrikaans'', ''Arabic'', ''Armenian'', ''Azerbaijani'', ''Belarusian'', ''Bosnian'',
      ''Bulgarian'', ''Catalan'', ''Chinese'', ''Croatian'', ''Czech'', ''Danish'', ''Dutch'',
      ''English'', ''Estonian'', ''Finnish'', ''French'', ''Galician'', ''German'', ''Greek'',
      ''Hebrew'', ''Hindi'', ''Hungarian'', ''Icelandic'', ''Indonesian'', ''Italian'',
      ''Japanese'', ''Kannada'', ''Kazakh'', ''Korean'', ''Latvian'', ''Lithuanian'',
      ''Macedonian'', ''Malay'', ''Marathi'', ''Maori'', ''Nepali'', ''Norwegian'', ''Persian'',
      ''Polish'', ''Portuguese'', ''Romanian'', ''Russian'', ''Serbian'', ''Slovak'',
      ''Slovenian'', ''Spanish'', ''Swahili'', ''Swedish'', ''Tagalog'', ''Tamil'', ''Thai'',
      ''Turkish'', ''Ukrainian'', ''Urdu'', ''Vietnamese'', ''Welsh'']"

section \<open>\<open>extract_number\<close>\<close>

text \<open>
  The pattern is an opening bracket, one or more decimal digits, a closing bracket;
  \<open>re.search\<close> returns the leftmost match. The digit run is greedy, and since a closing
  bracket is no digit, a match at a position exists exactly when the maximal digit run
  after the bracket is non-empty and followed by the closing bracket. \<open>int\<close> of a digit
  string is its decimal value, a natural number (a file name is far shorter than the
  number of digits above which \<open>int\<close> refuses a string).
\<close>

definition is_digit :: "char \<Rightarrow> bool" where
  "is_digit c = (48 \<le> code c \<and> code c \<le> 57)"

fun int_of_digits :: "string \<Rightarrow> nat \<Rightarrow> nat" where
  "int_of_digits [] acc = acc"
| "int_of_digits (c # cs) acc = int_of_digits cs (10 * acc + (code c - 48))"

definition match_here :: "string \<Rightarrow> nat option" where
  "match_here s =
     (case s of
        [] \<Rightarrow> None
      | c # r \<Rightarrow>
          if c = CHR ''(''
          then (let ds = takeWhile is_digit r; rest = dropWhile is_digit r
                in if ds \<noteq> [] \<and> rest \<noteq> [] \<and> hd rest = CHR '')''
                   then Some (int_of_digits ds 0) else None)
          else None)"

fun extract_number :: "string \<Rightarrow> nat option" where
  "extract_number [] = None"
| "extract_number (c # cs) =
     (case match_here (c # cs) of Some n \<Rightarrow> Some n | None \<Rightarrow> extract_number cs)"

section \<open>The environment of a run\<close>

text \<open>
  The file system maps a path to what is there. Exceptions are values; they stand for
  the exceptions derived from \<open>Exception\<close>, which \<open>except Exception\<close> catches (an
  interrupt from the keyboard is no step of a run). The model returned by
  \<open>whisper.load_model\<close> is identified by the number of loads before it, so that two
  loads never give the same instance.
\<close>

datatype node = File string | Dir

type_synonym fsys = "path \<Rightarrow> node option"

datatype exn =
    CalledProcessError nat
  | EOFError
  | LoadAudioError path
  | OSError path
  | ModelError string

record model =
  model_name :: string
  device :: string
  instance_id :: nat

text \<open>
  Console output. The wording of a message is abstracted to a constructor with the
  values the f-string interpolates; \<open>Stamped\<close> marks the lines that start with
  \<open>datetime.now()\<close> formatted as day, month, year, hour and minute, \<open>Plain\<close> the others.
\<close>

datatype msg =
    FileHeader string
  | ConversionStart string string
  | ConversionCompleted path path
  | ConversionError path exn
  | ConversionNotMade string
  | TranscriptionStart string
  | TranscriptionCompleted string
  | TranscriptionError string exn
  | SkippingUnsupported string
  | LoadingModel string string
  | ModelLoaded
  | Separator

datatype line = Plain msg | Stamped msg

datatype prompt =
    AskDevice | AskDeviceAgain
  | AskModel | AskModelAgain
  | AskInput | AskInputAgain
  | AskLanguage | AskLanguageAgain
  | AskOutputSingle | AskOutputMultiple | AskOutputAgain
  | AskOrder | AskOrderAgain

datatype event =
    Print line
  | Prompt prompt
  | LoadModel model
  | Ffmpeg path path
  | Transcribe model path string
  | WriteText path string

text \<open>
  What the scripts delegate. \<open>listdir\<close> gives the names in a directory, in iteration
  order, or the exception \<open>os.listdir\<close> raises. \<open>ffmpeg\<close> is the converter: from the
  input path and what is there it gives the exception raised when the process cannot
  be started, or else the exit status and the audio it wrote, if any (it is started
  only when nothing is at the output path). \<open>load\<close> tells whether
  \<open>whisper.load_model\<close> raises for a model name and a device. \<open>asr\<close> is the speech
  recogniser on a file that exists: model, path, content and language give the text or
  the exception raised. \<open>writable\<close> tells whether a text file can be opened for
  writing at a path. Times are of any linearly ordered type; the files of a listing
  keep their times while it is sorted.
\<close>

record 't env =
  cuda_is_available :: bool
  listdir :: "path \<Rightarrow> exn + string list"
  getctime :: "path \<Rightarrow> 't"
  getmtime :: "path \<Rightarrow> 't"
  ffmpeg :: "path \<Rightarrow> node option \<Rightarrow> exn + nat \<times> string option"
  load :: "string \<Rightarrow> string \<Rightarrow> exn option"
  asr :: "model \<Rightarrow> path \<Rightarrow> string \<Rightarrow> string \<Rightarrow> exn + string"
  writable :: "path \<Rightarrow> bool"

record world =
  fs :: fsys
  stdin :: "string list"
  trace :: "event list"

definition emit :: "event \<Rightarrow> world \<Rightarrow> world" where
  "emit e w = w\<lparr>trace := trace w @ [e]\<rparr>"

definition exists :: "world \<Rightarrow> path \<Rightarrow> bool" where
  "exists w p = (fs w p \<noteq> None)"

definition isfile :: "world \<Rightarrow> path \<Rightarrow> bool" where
  "isfile w p = (case fs w p of Some (File c) \<Rightarrow> True | _ \<Rightarrow> False)"

definition isdir :: "world \<Rightarrow> path \<Rightarrow> bool" where
  "isdir w p = (fs w p = Some Dir)"

text \<open>
  \<open>subprocess.run(command, stderr=devnull, check=...)\<close> inside \<open>with open(null_device,
  'w')\<close>: when the null device cannot be opened or the process cannot be started the
  exception of the operating system is raised; otherwise the converter runs, what it
  wrote stays on disk, and with \<open>check=True\<close> a nonzero exit status raises
  \<open>CalledProcessError\<close>. The event records that the statement was reached.
\<close>

definition subprocess_run ::
  "'t env \<Rightarrow> bool \<Rightarrow> path \<Rightarrow> path \<Rightarrow> world \<Rightarrow> exn option \<times> world" where
  "subprocess_run env check input_path output_path w =
     (let w1 = emit (Ffmpeg input_path output_path) w
      in case ffmpeg env input_path (fs w input_path) of
           Inl e \<Rightarrow> (Some e, w1)
         | Inr (status, written) \<Rightarrow>
             (let w2 = (case written of
                          None \<Rightarrow> w1
                        | Some audio \<Rightarrow> w1\<lparr>fs := (fs w1)(output_path \<mapsto> File audio)\<rparr>)
              in if check \<and> status \<noteq> 0 then (Some (CalledProcessError status), w2)
                 else (None, w2)))"

text \<open>\<open>model.transcribe(file_path, language=language)\<close>: a path with no file raises.\<close>

definition model_transcribe ::
  "'t env \<Rightarrow> model \<Rightarrow> path \<Rightarrow> string \<Rightarrow> world \<Rightarrow> (exn + string) \<times> world" where
  "model_transcribe env m file_path language w =
     (let w1 = emit (Transcribe m file_path language) w
      in case fs w file_path of
           Some (File content) \<Rightarrow> (asr env m file_path content language, w1)
         | _ \<Rightarrow> (Inl (LoadAudioError file_path), w1))"

text \<open>\<open>with open(txt_path, "w", encoding="utf-8") as f: f.write(text)\<close>.\<close>

definition write_text :: "'t env \<Rightarrow> path \<Rightarrow> string \<Rightarrow> world \<Rightarrow> exn option \<times> world" where
  "write_text env txt_path text w =
     (if fs w txt_path = Some Dir \<or> \<not> writable env txt_path then (Some (OSError txt_path), w)
      else (None, emit (WriteText txt_path text) (w\<lparr>fs := (fs w)(txt_path \<mapsto> File text)\<rparr>)))"

text \<open>
  \<open>whisper.load_model(model_name, device=device)\<close>: the call is recorded with the
  model it would return, and may raise.
\<close>

definition loads :: "event list \<Rightarrow> model list" where
  "loads tr = List.map_filter (\<lambda>e. case e of LoadModel m \<Rightarrow> Some m | _ \<Rightarrow> None) tr"

definition load_model :: "'t env \<Rightarrow> string \<Rightarrow> string \<Rightarrow> world \<Rightarrow> (exn + model) \<times> world" where
  "load_model env name dev w =
     (let m = \<lparr>model_name = name, device = dev, instance_id = length (loads (trace w))\<rparr>
      in case load env name dev of
           Some e \<Rightarrow> (Inl e, emit (LoadModel m) w)
         | None \<Rightarrow> (Inr m, emit (LoadModel m) w))"

section \<open>\<open>transcriber.py\<close>\<close>

text \<open>
  \<open>convert_to_mp3\<close>: the \<open>try\<close> runs the converter with \<open>check=True\<close>; the handler
  catches \<open>CalledProcessError\<close> only, any other exception escapes.
\<close>

definition convert_to_mp3 :: "'t env \<Rightarrow> path \<Rightarrow> path \<Rightarrow> world \<Rightarrow> exn option \<times> world" where
  "convert_to_mp3 env input_path output_path w =
     (case subprocess_run env True input_path output_path w of
        (None, w1) \<Rightarrow> (None, emit (Print (Stamped (ConversionCompleted input_path output_path))) w1)
      | (Some (CalledProcessError status), w1) \<Rightarrow>
          (None, emit (Print (Stamped (ConversionError input_path (CalledProcessError status)))) w1)
      | (Some e, w1) \<Rightarrow> (Some e, w1))"

text \<open>
  The \<open>try\<close> block of \<open>transcribe_single_file\<close>, the same in both scripts once the path
  handed to the model is fixed: every exception of the transcription or of the write is
  caught and printed.
\<close>

definition transcribe_and_save ::
  "'t env \<Rightarrow> model \<Rightarrow> string \<Rightarrow> path \<Rightarrow> path \<Rightarrow> string \<Rightarrow> world \<Rightarrow> world" where
  "transcribe_and_save env m file file_path txt_path language w =
     (case model_transcribe env m file_path language w of
        (Inl e, w1) \<Rightarrow> emit (Print (Stamped (TranscriptionError file e))) w1
      | (Inr text, w1) \<Rightarrow>
          (case write_text env txt_path text w1 of
             (Some e, w2) \<Rightarrow> emit (Print (Stamped (TranscriptionError file e))) w2
           | (None, w2) \<Rightarrow> emit (Print (Stamped (TranscriptionCompleted file))) w2))"

text \<open>
  The conversion branch, entered for an extension of the conversion list: it gives the
  path of the mp3 sibling, after converting unless something is already at that path.
  \<open>convert\<close> is the script's own \<open>convert_to_mp3\<close>.
\<close>

definition mp3_sibling :: "path \<Rightarrow> string \<Rightarrow> path" where
  "mp3_sibling in_path file = join in_path (fst (splitext file) @ ''.mp3'')"

definition txt_target :: "path \<Rightarrow> string \<Rightarrow> path" where
  "txt_target out_path file = join out_path (fst (splitext file) @ ''.txt'')"

definition conversion_branch ::
  "(path \<Rightarrow> path \<Rightarrow> world \<Rightarrow> exn option \<times> world) \<Rightarrow> string \<Rightarrow> path \<Rightarrow> world
     \<Rightarrow> exn option \<times> world" where
  "conversion_branch convert file in_path w =
     (let w1 = emit (Print (Stamped (ConversionStart file (snd (splitext file))))) w;
          mp3_path = mp3_sibling in_path file
      in if \<not> exists w1 mp3_path then convert (join in_path file) mp3_path w1
         else (None, emit (Print (Stamped (ConversionNotMade file))) w1))"

definition transcribe_single_file ::
  "'t env \<Rightarrow> model \<Rightarrow> string \<Rightarrow> path \<Rightarrow> path \<Rightarrow> string \<Rightarrow> world \<Rightarrow> exn option \<times> world" where
  "transcribe_single_file env m file in_path out_path language w =
     (let w1 = emit (Print (Plain (FileHeader file))) w;
          file_extension = snd (splitext file);
          txt_path = txt_target out_path file
      in if lower file_extension \<in> set EXTENSIONS_SUPPORTED then
           if lower file_extension \<in> set EXTENSIONS_REQUIRING_CONVERSION then
             (case conversion_branch (convert_to_mp3 env) file in_path w1 of
                (Some e, w2) \<Rightarrow> (Some e, w2)
              | (None, w2) \<Rightarrow>
                  (None, transcribe_and_save env m file (mp3_sibling in_path file) txt_path language
                     (emit (Print (Stamped (TranscriptionStart file))) w2)))
           else
             (None, transcribe_and_save env m file (join in_path file) txt_path language
                (emit (Print (Stamped (TranscriptionStart file))) w1))
         else (None, emit (Print (Stamped (SkippingUnsupported file))) w1))"

subsection \<open>Filtering, ordering and the batch loop\<close>

text \<open>
  The list comprehension over the result of \<open>os.listdir(in_path)\<close>.
\<close>

definition supported_files :: "path \<Rightarrow> world \<Rightarrow> string list \<Rightarrow> string list" where
  "supported_files in_path w files =
     filter (\<lambda>f. isfile w (join in_path f) \<and> lower (snd (splitext f)) \<in> set EXTENSIONS_SUPPORTED)
       files"

text \<open>
  \<open>list.sort(key=...)\<close> is stable, and a stable sort has one result: that of the
  insertion sort \<open>sort_key\<close>. With \<open>reverse=True\<close> the list is reversed, sorted and
  reversed again, which keeps equal keys in their original order.
\<close>

definition sort_reverse :: "('a \<Rightarrow> 'k::linorder) \<Rightarrow> 'a list \<Rightarrow> 'a list" where
  "sort_reverse key xs = rev (sort_key key (rev xs))"

text \<open>
  The key of criterion 5: the extracted number, or \<open>float('inf')\<close>, which is above
  every integer.
\<close>

definition number_key :: "string \<Rightarrow> enat" where
  "number_key x = (case extract_number x of Some n \<Rightarrow> enat n | None \<Rightarrow> \<infinity>)"

definition order_files ::
  "('t::linorder) env \<Rightarrow> path \<Rightarrow> string \<Rightarrow> string list \<Rightarrow> string list" where
  "order_files env in_path order_criterion files =
     (if order_criterion = ''1'' then sort_key (\<lambda>x. getctime env (join in_path x)) files
      else if order_criterion = ''2'' then sort_reverse (\<lambda>x. getctime env (join in_path x)) files
      else if order_criterion = ''3'' then sort_key (\<lambda>x. getmtime env (join in_path x)) files
      else if order_criterion = ''4'' then sort_reverse (\<lambda>x. getmtime env (join in_path x)) files
      else if order_criterion = ''5'' then sort_key number_key files
      else files)"

text \<open>
  The \<open>for\<close> loop: it has no \<open>try\<close> of its own, so an exception that escapes the
  body ends the loop and the run.
\<close>

fun for_each :: "('a \<Rightarrow> world \<Rightarrow> exn option \<times> world) \<Rightarrow> 'a list \<Rightarrow> world \<Rightarrow> exn option \<times> world" where
  "for_each body [] w = (None, w)"
| "for_each body (x # xs) w =
     (case body x w of (Some e, w1) \<Rightarrow> (Some e, w1) | (None, w1) \<Rightarrow> for_each body xs w1)"

definition transcribe_multiple_files ::
  "('t::linorder) env \<Rightarrow> model \<Rightarrow> path \<Rightarrow> path \<Rightarrow> string \<Rightarrow> string \<Rightarrow> world
     \<Rightarrow> exn option \<times> world" where
  "transcribe_multiple_files env m in_path out_path language order_criterion w =
     (case listdir env in_path of
        Inl e \<Rightarrow> (Some e, w)
      | Inr files \<Rightarrow>
          for_each (\<lambda>file. transcribe_single_file env m file in_path out_path language)
            (order_files env in_path order_criterion (supported_files in_path w files)) w)"

section \<open>\<open>whisper_transcriber.py\<close>\<close>

text \<open>
  The older script. Its \<open>convert_to_mp3\<close> runs the converter without \<open>check=True\<close>;
  its \<open>transcribe_single_file\<close> takes the model name and the device, loads the model
  itself, before and outside the \<open>try\<close>, and inside the \<open>try\<close> sets \<open>file_path\<close> to
  the input path again before the model is called. Its functions carry the prefix
  \<open>w_\<close> here.
\<close>

definition w_convert_to_mp3 :: "'t env \<Rightarrow> path \<Rightarrow> path \<Rightarrow> world \<Rightarrow> exn option \<times> world" where
  "w_convert_to_mp3 env input_path output_path w =
     (case subprocess_run env False input_path output_path w of
        (None, w1) \<Rightarrow> (None, emit (Print (Stamped (ConversionCompleted input_path output_path))) w1)
      | (Some (CalledProcessError status), w1) \<Rightarrow>
          (None, emit (Print (Stamped (ConversionError input_path (CalledProcessError status)))) w1)
      | (Some e, w1) \<Rightarrow> (Some e, w1))"

definition w_transcribe_single_file ::
  "'t env \<Rightarrow> string \<Rightarrow> string \<Rightarrow> string \<Rightarrow> path \<Rightarrow> path \<Rightarrow> string \<Rightarrow> world
     \<Rightarrow> exn option \<times> world" where
  "w_transcribe_single_file env name dev file in_path out_path language w =
     (case load_model env name dev (emit (Print (Plain (FileHeader file))) w) of
        (Inl e, w1) \<Rightarrow> (Some e, w1)
      | (Inr m, w1) \<Rightarrow>
          (let file_extension = snd (splitext file);
               txt_path = txt_target out_path file
           in if lower file_extension \<in> set EXTENSIONS_SUPPORTED then
                if lower file_extension \<in> set EXTENSIONS_REQUIRING_CONVERSION then
                  (case conversion_branch (w_convert_to_mp3 env) file in_path w1 of
                     (Some e, w2) \<Rightarrow> (Some e, w2)
                   | (None, w2) \<Rightarrow>
                       (None, transcribe_and_save env m file (join in_path file) txt_path language
                          (emit (Print (Stamped (TranscriptionStart file))) w2)))
                else
                  (None, transcribe_and_save env m file (join in_path file) txt_path language
                     (emit (Print (Stamped (TranscriptionStart file))) w1))
              else (None, emit (Print (Stamped (SkippingUnsupported file))) w1)))"

definition w_transcribe_multiple_files ::
  "('t::linorder) env \<Rightarrow> string \<Rightarrow> string \<Rightarrow> path \<Rightarrow> path \<Rightarrow> string \<Rightarrow> string \<Rightarrow> world
     \<Rightarrow> exn option \<times> world" where
  "w_transcribe_multiple_files env name dev in_path out_path language order_criterion w =
     (case listdir env in_path of
        Inl e \<Rightarrow> (Some e, w)
      | Inr files \<Rightarrow>
          for_each (\<lambda>file. w_transcribe_single_file env name dev file in_path out_path language)
            (order_files env in_path order_criterion (supported_files in_path w files)) w)"

section \<open>Prompts and \<open>main\<close>\<close>

text \<open>
  Standard input is the list of the lines still to be read; \<open>input\<close> on an empty list
  raises \<open>EOFError\<close>. Every prompt function reads once and then repeats a second
  prompt while the answer is not accepted: \<open>ask_again\<close> is that \<open>while\<close> loop, by
  recursion on the lines left, returning the answer, the lines left and the prompts
  printed.
\<close>

fun ask_again ::
  "prompt \<Rightarrow> (string \<Rightarrow> string) \<Rightarrow> (string \<Rightarrow> bool) \<Rightarrow> string \<Rightarrow> string list
     \<Rightarrow> (exn + string) \<times> string list \<times> event list" where
  "ask_again p tidy ok answ [] =
     (if ok answ then (Inr answ, [], []) else (Inl EOFError, [], [Prompt p]))"
| "ask_again p tidy ok answ (l # ls) =
     (if ok answ then (Inr answ, l # ls, [])
      else (let (r, rest, evs) = ask_again p tidy ok (tidy l) ls in (r, rest, Prompt p # evs)))"

definition ask ::
  "prompt \<Rightarrow> (string \<Rightarrow> string) \<Rightarrow> prompt \<Rightarrow> (string \<Rightarrow> string) \<Rightarrow> (string \<Rightarrow> bool) \<Rightarrow> world
     \<Rightarrow> (exn + string) \<times> world" where
  "ask p1 norm1 p2 norm2 ok w =
     (case stdin w of
        [] \<Rightarrow> (Inl EOFError, emit (Prompt p1) w)
      | l # ls \<Rightarrow>
          (let (r, rest, evs) = ask_again p2 norm2 ok (norm1 l) ls
           in (r, w\<lparr>stdin := rest, trace := trace w @ Prompt p1 # evs\<rparr>)))"

definition get_device :: "'t env \<Rightarrow> string" where
  "get_device env = (if cuda_is_available env then ''cuda'' else ''cpu'')"

definition user_device_choice :: "world \<Rightarrow> (exn + string) \<times> world" where
  "user_device_choice =
     ask AskDevice (\<lambda>s. upper (strip s)) AskDeviceAgain (\<lambda>s. upper (strip s))
       (\<lambda>answ. \<not> (answ \<noteq> ''Y'' \<and> answ \<noteq> ''N''))"

definition get_model_name :: "world \<Rightarrow> (exn + string) \<times> world" where
  "get_model_name =
     ask AskModel (\<lambda>s. lower (strip s)) AskModelAgain (\<lambda>s. lower (strip s))
       (\<lambda>answ. answ \<in> set AVAILABLE_MODELS)"

definition get_input_path :: "world \<Rightarrow> (exn + string) \<times> world" where
  "get_input_path w =
     ask AskInput strip AskInputAgain strip
       (\<lambda>answ. \<not> (\<not> exists w answ \<or> \<not> (isfile w answ \<or> isdir w answ))) w"

definition get_language :: "world \<Rightarrow> (exn + string) \<times> world" where
  "get_language =
     ask AskLanguage (\<lambda>s. capitalize (strip s)) AskLanguageAgain (\<lambda>s. capitalize (strip s))
       (\<lambda>answ. answ \<in> set AVAILABLE_LANGUAGES)"

definition get_output_path :: "bool \<Rightarrow> world \<Rightarrow> (exn + string) \<times> world" where
  "get_output_path single_file w =
     ask (if single_file then AskOutputSingle else AskOutputMultiple) strip AskOutputAgain strip
       (\<lambda>answ. isdir w answ) w"

definition get_order_criterion :: "world \<Rightarrow> (exn + string) \<times> world" where
  "get_order_criterion =
     ask AskOrder strip AskOrderAgain (\<lambda>s. lower (strip s))
       (\<lambda>answ. answ \<in> set [''1'', ''2'', ''3'', ''4'', ''5'', ''6''])"

text \<open>The prompts of the older script that differ: any existing path is accepted.\<close>

definition w_get_input_path :: "world \<Rightarrow> (exn + string) \<times> world" where
  "w_get_input_path w = ask AskInput strip AskInputAgain strip (\<lambda>answ. exists w answ) w"

definition w_get_output_path :: "bool \<Rightarrow> world \<Rightarrow> (exn + string) \<times> world" where
  "w_get_output_path single_file w =
     ask (if single_file then AskOutputSingle else AskOutputMultiple) strip AskOutputAgain strip
       (\<lambda>answ. exists w answ) w"

text \<open>\<open>os.path.basename\<close> and \<open>os.path.dirname\<close>.\<close>

definition basename :: "path \<Rightarrow> string" where
  "basename p = drop (nat (rfind p CHR ''/'' + 1)) p"

definition dirname :: "path \<Rightarrow> path" where
  "dirname p =
     (let head = take (nat (rfind p CHR ''/'' + 1)) p
      in if head \<noteq> [] \<and> \<not> list_all (\<lambda>c. c = CHR ''/'') head
         then rev (dropWhile (\<lambda>c. c = CHR ''/'') (rev head)) else head)"

text \<open>A statement that may raise, followed by the rest of the function.\<close>

definition and_then ::
  "(exn + 'a) \<times> world \<Rightarrow> ('a \<Rightarrow> world \<Rightarrow> exn option \<times> world) \<Rightarrow> exn option \<times> world" where
  "and_then r rest = (case r of (Inl e, w) \<Rightarrow> (Some e, w) | (Inr x, w) \<Rightarrow> rest x w)"

definition main :: "('t::linorder) env \<Rightarrow> world \<Rightarrow> exn option \<times> world" where
  "main env w0 =
     and_then (user_device_choice w0) (\<lambda>answ w1.
       let dev = (if answ = ''N'' then ''cpu'' else get_device env) in
       and_then (get_model_name w1) (\<lambda>name w2.
         and_then (load_model env name dev (emit (Print (Stamped (LoadingModel name dev))) w2))
           (\<lambda>m w3.
             and_then (get_input_path (emit (Print (Stamped ModelLoaded)) w3)) (\<lambda>in_path w5.
               and_then (get_language w5) (\<lambda>language w6.
                 let single_file = isfile w6 in_path in
                 and_then (get_output_path single_file w6) (\<lambda>out_path w7.
                   if single_file then
                     transcribe_single_file env m (basename in_path) (dirname in_path) out_path
                       language (emit (Print (Plain Separator)) w7)
                   else
                     and_then (get_order_criterion w7) (\<lambda>order_criterion w8.
                       transcribe_multiple_files env m in_path out_path language order_criterion
                         (emit (Print (Plain Separator)) w8))))))))"

definition w_main :: "('t::linorder) env \<Rightarrow> world \<Rightarrow> exn option \<times> world" where
  "w_main env w0 =
     and_then (user_device_choice w0) (\<lambda>answ w1.
       let dev = (if answ = ''N'' then ''cpu'' else get_device env) in
       and_then (get_model_name w1) (\<lambda>name w2.
         and_then (w_get_input_path w2) (\<lambda>in_path w3.
           and_then (get_language w3) (\<lambda>language w4.
             let single_file = isfile w4 in_path in
             and_then (w_get_output_path single_file w4) (\<lambda>out_path w5.
               if single_file then
                 w_transcribe_single_file env name dev (basename in_path) (dirname in_path)
                   out_path language (emit (Print (Plain Separator)) w5)
               else
                 and_then (get_order_criterion w5) (\<lambda>order_criterion w6.
                   w_transcribe_multiple_files env name dev in_path out_path language
                     order_criterion (emit (Print (Plain Separator)) w6)))))))"

section \<open>Observations on a trace\<close>

definition started :: "event list \<Rightarrow> string list" where
  "started tr = List.map_filter (\<lambda>e. case e of Print (Plain (FileHeader f)) \<Rightarrow> Some f | _ \<Rightarrow> None) tr"

definition finished :: "event list \<Rightarrow> string list" where
  "finished tr =
     List.map_filter
       (\<lambda>e. case e of
               Print (Stamped (TranscriptionCompleted f)) \<Rightarrow> Some f
             | Print (Stamped (TranscriptionError f x)) \<Rightarrow> Some f
             | _ \<Rightarrow> None) tr"

definition transcribed :: "event list \<Rightarrow> (model \<times> path) list" where
  "transcribed tr = List.map_filter (\<lambda>e. case e of Transcribe m p l \<Rightarrow> Some (m, p) | _ \<Rightarrow> None) tr"

definition conversions :: "event list \<Rightarrow> (path \<times> path) list" where
  "conversions tr = List.map_filter (\<lambda>e. case e of Ffmpeg i out \<Rightarrow> Some (i, out) | _ \<Rightarrow> None) tr"

definition written :: "event list \<Rightarrow> (path \<times> string) list" where
  "written tr = List.map_filter (\<lambda>e. case e of WriteText p t \<Rightarrow> Some (p, t) | _ \<Rightarrow> None) tr"

text \<open>
  The path the model should be given: the mp3 sibling for an extension of the conversion
  list, the input path otherwise.
\<close>

definition resolved :: "path \<Rightarrow> string \<Rightarrow> path" where
  "resolved in_path file =
     (if lower (snd (splitext file)) \<in> set EXTENSIONS_REQUIRING_CONVERSION
      then mp3_sibling in_path file else join in_path file)"

text \<open>
  The outcome of the \<open>try\<close> block in a world: the text that is written, or the
  exception that is caught.
\<close>

definition attempt :: "'t env \<Rightarrow> model \<Rightarrow> path \<Rightarrow> path \<Rightarrow> string \<Rightarrow> world \<Rightarrow> exn + string" where
  "attempt env m file_path txt_path language w =
     (case fs w file_path of
        Some (File content) \<Rightarrow>
          (case asr env m file_path content language of
             Inl e \<Rightarrow> Inl e
           | Inr text \<Rightarrow>
               if fs w txt_path = Some Dir \<or> \<not> writable env txt_path then Inl (OSError txt_path)
               else Inr text)
      | _ \<Rightarrow> Inl (LoadAudioError file_path))"

section \<open>What the claims speak of\<close>

text \<open>The converter can be started, whatever the input.\<close>

definition converter_starts :: "'t env \<Rightarrow> bool" where
  "converter_starts env = (\<forall>p n. \<exists>r. ffmpeg env p n = Inr r)"

text \<open>
  What the two \<open>convert_to_mp3\<close> have in common: the converter is called once, at most
  one stamped line about the conversion is printed, only the output path may change,
  and no exception escapes when the converter can be started.
\<close>

definition tame :: "'t env \<Rightarrow> (path \<Rightarrow> path \<Rightarrow> world \<Rightarrow> exn option \<times> world) \<Rightarrow> bool" where
  "tame env convert =
     (\<forall>i out w. \<exists>r w1 tl. convert i out w = (r, w1)
        \<and> trace w1 = trace w @ Ffmpeg i out # tl
        \<and> (tl = [] \<or> tl = [Print (Stamped (ConversionCompleted i out))]
              \<or> (\<exists>e. tl = [Print (Stamped (ConversionError i e))]))
        \<and> (\<forall>p. p \<noteq> out \<longrightarrow> fs w1 p = fs w p)
        \<and> (converter_starts env \<longrightarrow> r = None))"

text \<open>The device a run should load the model on, given the validated answer.\<close>

definition chosen_device :: "'t env \<Rightarrow> string \<Rightarrow> string" where
  "chosen_device env answ = (if cuda_is_available env \<and> answ = ''Y'' then ''cuda'' else ''cpu'')"

text \<open>
  From a world \<open>w\<close> to a later world of \<open>transcriber.py\<close> working with the model \<open>m\<close>:
  no model is loaded, and every transcription uses \<open>m\<close>.
\<close>

definition run_shape :: "model \<Rightarrow> world \<Rightarrow> world \<Rightarrow> bool" where
  "run_shape m w w' =
     (loads (trace w') = loads (trace w)
      \<and> (\<exists>ps. transcribed (trace w') = transcribed (trace w) @ map (Pair m) ps))"

text \<open>
  From a world \<open>w\<close> to a later world of the older script: one model is loaded for each
  file that is started, each load a new instance of the same name on the same device,
  and every transcription uses one of these.
\<close>

definition w_run_shape :: "string \<Rightarrow> string \<Rightarrow> world \<Rightarrow> world \<Rightarrow> bool" where
  "w_run_shape name dev w w' =
     (\<exists>k ps. loads (trace w') = loads (trace w) @
               map (\<lambda>i. \<lparr>model_name = name, device = dev, instance_id = i\<rparr>)
                 [length (loads (trace w)) ..< length (loads (trace w)) + k]
            \<and> length (started (trace w')) = length (started (trace w)) + k
            \<and> transcribed (trace w') = transcribed (trace w) @ ps
            \<and> fst ` set ps \<subseteq> (\<lambda>i. \<lparr>model_name = name, device = dev, instance_id = i\<rparr>) `
                 {length (loads (trace w)) ..< length (loads (trace w)) + k})"

section \<open>An example run\<close>

text \<open>
  A directory with three media files and a text file, a converter that succeeds on a
  file that exists, a model that loads, a recogniser that fails on one of the files, no
  GPU, and a user who answers yes to the GPU prompt and asks for criterion 5.
\<close>

definition env0 :: "nat env" where
  "env0 =
     \<lparr>cuda_is_available = False,
      listdir = (\<lambda>p. if p = ''/in'' then Inr [''b.wav'', ''a_(10).mkv'', ''a_(9).mp3'', ''notes.txt'']
                     else Inl (OSError p)),
      getctime = length,
      getmtime = length,
      ffmpeg = (\<lambda>p n. case n of Some (File c) \<Rightarrow> Inr (0, Some (''audio of '' @ c))
                               | _ \<Rightarrow> Inr (1, None)),
      load = (\<lambda>name dev. None),
      asr = (\<lambda>m p c l. if c = ''noise'' then Inl (ModelError ''no speech'') else Inr (''text of '' @ c)),
      writable = (\<lambda>p. True)\<rparr>"

definition w0 :: world where
  "w0 =
     \<lparr>fs = [''/in'' \<mapsto> Dir, ''/out'' \<mapsto> Dir, ''/in/b.wav'' \<mapsto> File ''noise'',
            ''/in/a_(10).mkv'' \<mapsto> File ''video'', ''/in/a_(9).mp3'' \<mapsto> File ''song'',
            ''/in/notes.txt'' \<mapsto> File ''memo''],
      stdin = ['' y'', ''tiny'', ''/in'', ''english'', ''/out'', ''5''],
      trace = []\<rparr>"

definition m0 :: model where
  "m0 = \<lparr>model_name = ''tiny'', device = ''cpu'', instance_id = 0\<rparr>"

text \<open>The same world with an mp3 sibling already in place.\<close>

definition w0_mp3 :: world where
  "w0_mp3 = w0\<lparr>fs := (fs w0)(''/in/a_(10).mp3'' \<mapsto> File ''old audio'')\<rparr>"

text \<open>The same environment with a converter that exits with status 1 and writes nothing.\<close>

definition env_fail :: "nat env" where
  "env_fail = env0\<lparr>ffmpeg := (\<lambda>p n. Inr (1, None))\<rparr>"

text \<open>The same environment on a machine where the converter is not installed.\<close>

definition env_no_ffmpeg :: "nat env" where
  "env_no_ffmpeg = env0\<lparr>ffmpeg := (\<lambda>p n. Inl (OSError ''ffmpeg''))\<rparr>"


section \<open>Properties\<close>

subsection \<open>Traces\<close>

lemma map_filter_app: "List.map_filter f (xs @ ys) = List.map_filter f xs @ List.map_filter f ys"
  by (simp add: List.map_filter_def)

lemmas obs_defs = started_def finished_def transcribed_def conversions_def loads_def written_def

lemma obs_append:
  "started (xs @ ys) = started xs @ started ys"
  "finished (xs @ ys) = finished xs @ finished ys"
  "transcribed (xs @ ys) = transcribed xs @ transcribed ys"
  "conversions (xs @ ys) = conversions xs @ conversions ys"
  "loads (xs @ ys) = loads xs @ loads ys"
  "written (xs @ ys) = written xs @ written ys"
  by (simp_all add: obs_defs map_filter_app)

lemma trace_emit: "trace (emit e w) = trace w @ [e]"
  by (simp add: emit_def)

lemma fs_emit: "fs (emit e w) = fs w"
  by (simp add: emit_def)

lemma exists_emit: "exists (emit e w) p = exists w p"
  by (simp add: exists_def fs_emit)

lemma obs_Nil:
  "started [] = []" "finished [] = []" "transcribed [] = []" "conversions [] = []"
  "loads [] = []" "written [] = []"
  by (simp_all add: obs_defs List.map_filter_simps)

lemma obs_Cons:
  "started (e # tr) = (case e of Print (Plain (FileHeader f)) \<Rightarrow> f # started tr | _ \<Rightarrow> started tr)"
  "finished (e # tr) =
     (case e of Print (Stamped (TranscriptionCompleted f)) \<Rightarrow> f # finished tr
              | Print (Stamped (TranscriptionError f x)) \<Rightarrow> f # finished tr
              | _ \<Rightarrow> finished tr)"
  "transcribed (e # tr) = (case e of Transcribe m p l \<Rightarrow> (m, p) # transcribed tr | _ \<Rightarrow> transcribed tr)"
  "conversions (e # tr) = (case e of Ffmpeg i out \<Rightarrow> (i, out) # conversions tr | _ \<Rightarrow> conversions tr)"
  "loads (e # tr) = (case e of LoadModel m \<Rightarrow> m # loads tr | _ \<Rightarrow> loads tr)"
  "written (e # tr) = (case e of WriteText p t \<Rightarrow> (p, t) # written tr | _ \<Rightarrow> written tr)"
  by (simp_all add: obs_defs List.map_filter_simps split: event.splits line.splits msg.splits)

lemmas obs_simps = obs_append obs_Nil obs_Cons

subsection \<open>The converter\<close>

lemma subprocess_run_effect:
  "\<exists>r w1. subprocess_run env check i out w = (r, w1)
     \<and> trace w1 = trace w @ [Ffmpeg i out]
     \<and> (\<forall>p. p \<noteq> out \<longrightarrow> fs w1 p = fs w p)
     \<and> r = (case ffmpeg env i (fs w i) of
              Inl e \<Rightarrow> Some e
            | Inr (status, audio) \<Rightarrow>
                if check \<and> status \<noteq> 0 then Some (CalledProcessError status) else None)"
  by (cases "ffmpeg env i (fs w i)")
     (auto simp: subprocess_run_def Let_def trace_emit fs_emit split: option.splits prod.splits)

lemma tame_convert_to_mp3: "tame env (convert_to_mp3 env)"
  unfolding tame_def
proof (intro allI)
  fix i out w
  obtain r w1 where s: "subprocess_run env True i out w = (r, w1)"
    and t: "trace w1 = trace w @ [Ffmpeg i out]"
    and f: "\<forall>p. p \<noteq> out \<longrightarrow> fs w1 p = fs w p"
    and r: "r = (case ffmpeg env i (fs w i) of
              Inl e \<Rightarrow> Some e
            | Inr (status, audio) \<Rightarrow>
                if True \<and> status \<noteq> 0 then Some (CalledProcessError status) else None)"
    using subprocess_run_effect[of env True i out w] by blast
  have st: "converter_starts env \<Longrightarrow> \<exists>status audio. ffmpeg env i (fs w i) = Inr (status, audio)"
    unfolding converter_starts_def by (metis surj_pair)
  show "\<exists>r w1 tl. convert_to_mp3 env i out w = (r, w1)
        \<and> trace w1 = trace w @ Ffmpeg i out # tl
        \<and> (tl = [] \<or> tl = [Print (Stamped (ConversionCompleted i out))]
              \<or> (\<exists>e. tl = [Print (Stamped (ConversionError i e))]))
        \<and> (\<forall>p. p \<noteq> out \<longrightarrow> fs w1 p = fs w p)
        \<and> (converter_starts env \<longrightarrow> r = None)"
  proof (cases r)
    case None
    with s t f show ?thesis
      by (simp add: convert_to_mp3_def trace_emit fs_emit)
  next
    case (Some e)
    show ?thesis
    proof (cases e)
      case (CalledProcessError n)
      with Some s t f show ?thesis
        by (simp add: convert_to_mp3_def trace_emit fs_emit)
    qed (use Some s t f r st in \<open>auto simp: convert_to_mp3_def trace_emit fs_emit split: if_splits\<close>)
  qed
qed

lemma tame_w_convert_to_mp3: "tame env (w_convert_to_mp3 env)"
  unfolding tame_def
proof (intro allI)
  fix i out w
  obtain r w1 where s: "subprocess_run env False i out w = (r, w1)"
    and t: "trace w1 = trace w @ [Ffmpeg i out]"
    and f: "\<forall>p. p \<noteq> out \<longrightarrow> fs w1 p = fs w p"
    and r: "r = (case ffmpeg env i (fs w i) of
              Inl e \<Rightarrow> Some e
            | Inr (status, audio) \<Rightarrow>
                if False \<and> status \<noteq> 0 then Some (CalledProcessError status) else None)"
    using subprocess_run_effect[of env False i out w] by blast
  have st: "converter_starts env \<Longrightarrow> \<exists>status audio. ffmpeg env i (fs w i) = Inr (status, audio)"
    unfolding converter_starts_def by (metis surj_pair)
  show "\<exists>r w1 tl. w_convert_to_mp3 env i out w = (r, w1)
        \<and> trace w1 = trace w @ Ffmpeg i out # tl
        \<and> (tl = [] \<or> tl = [Print (Stamped (ConversionCompleted i out))]
              \<or> (\<exists>e. tl = [Print (Stamped (ConversionError i e))]))
        \<and> (\<forall>p. p \<noteq> out \<longrightarrow> fs w1 p = fs w p)
        \<and> (converter_starts env \<longrightarrow> r = None)"
  proof (cases r)
    case None
    with s t f show ?thesis
      by (simp add: w_convert_to_mp3_def trace_emit fs_emit)
  next
    case (Some e)
    show ?thesis
    proof (cases e)
      case (CalledProcessError n)
      with Some s t f show ?thesis
        by (simp add: w_convert_to_mp3_def trace_emit fs_emit)
    qed (use Some s t f r st in \<open>auto simp: w_convert_to_mp3_def trace_emit fs_emit split: if_splits\<close>)
  qed
qed

lemma conversion_branch_effect:
  assumes "tame env convert"
  shows "\<exists>r w1. conversion_branch convert file ip w = (r, w1)
     \<and> conversions (trace w1) = conversions (trace w) @
         (if exists w (mp3_sibling ip file) then [] else [(join ip file, mp3_sibling ip file)])
     \<and> started (trace w1) = started (trace w) \<and> finished (trace w1) = finished (trace w)
     \<and> transcribed (trace w1) = transcribed (trace w) \<and> loads (trace w1) = loads (trace w)
     \<and> written (trace w1) = written (trace w)
     \<and> (\<forall>p. p \<noteq> mp3_sibling ip file \<longrightarrow> fs w1 p = fs w p)
     \<and> (exists w (mp3_sibling ip file) \<longrightarrow> fs w1 = fs w)
     \<and> (exists w (mp3_sibling ip file) \<or> converter_starts env \<longrightarrow> r = None)"
proof (cases "exists w (mp3_sibling ip file)")
  case True
  then show ?thesis
    by (simp add: conversion_branch_def Let_def exists_emit trace_emit fs_emit obs_simps)
next
  case False
  let ?w0 = "emit (Print (Stamped (ConversionStart file (snd (splitext file))))) w"
  obtain r w1 tl where c: "convert (join ip file) (mp3_sibling ip file) ?w0 = (r, w1)"
    and t: "trace w1 = trace ?w0 @ Ffmpeg (join ip file) (mp3_sibling ip file) # tl"
    and x: "tl = [] \<or> tl = [Print (Stamped (ConversionCompleted (join ip file) (mp3_sibling ip file)))]
              \<or> (\<exists>e. tl = [Print (Stamped (ConversionError (join ip file) e))])"
    and f: "\<forall>p. p \<noteq> mp3_sibling ip file \<longrightarrow> fs w1 p = fs ?w0 p"
    and n: "converter_starts env \<longrightarrow> r = None"
    using assms unfolding tame_def by blast
  from f have f': "\<forall>p. p \<noteq> mp3_sibling ip file \<longrightarrow> fs w1 p = fs w p"
    by (simp add: fs_emit)
  from x have o: "conversions tl = []" "started tl = []" "finished tl = []" "transcribed tl = []"
    "loads tl = []" "written tl = []"
    by (auto simp: obs_simps)
  from False c t f' n o show ?thesis
    by (simp add: conversion_branch_def Let_def exists_emit trace_emit obs_simps)
qed

subsection \<open>The try block\<close>

lemma transcribe_and_save_effect:
  "transcribe_and_save env m file p txt lang w =
     (case attempt env m p txt lang w of
        Inl e \<Rightarrow> w\<lparr>trace := trace w @ [Transcribe m p lang, Print (Stamped (TranscriptionError file e))]\<rparr>
      | Inr text \<Rightarrow> w\<lparr>fs := (fs w)(txt \<mapsto> File text),
           trace := trace w @ [Transcribe m p lang, WriteText txt text,
                               Print (Stamped (TranscriptionCompleted file))]\<rparr>)"
  by (simp add: transcribe_and_save_def model_transcribe_def write_text_def attempt_def emit_def Let_def
      split: option.splits node.splits sum.splits)

lemma transcribe_and_save_obs:
  "started (trace (transcribe_and_save env m file p txt lang w)) = started (trace w)"
  "finished (trace (transcribe_and_save env m file p txt lang w)) = finished (trace w) @ [file]"
  "transcribed (trace (transcribe_and_save env m file p txt lang w)) = transcribed (trace w) @ [(m, p)]"
  "conversions (trace (transcribe_and_save env m file p txt lang w)) = conversions (trace w)"
  "loads (trace (transcribe_and_save env m file p txt lang w)) = loads (trace w)"
  "written (trace (transcribe_and_save env m file p txt lang w)) = written (trace w) @
     (case attempt env m p txt lang w of Inl e \<Rightarrow> [] | Inr text \<Rightarrow> [(txt, text)])"
  "fs (transcribe_and_save env m file p txt lang w) =
     (case attempt env m p txt lang w of Inl e \<Rightarrow> fs w | Inr text \<Rightarrow> (fs w)(txt \<mapsto> File text))"
  by (simp_all add: transcribe_and_save_effect obs_simps split: sum.splits)

lemma failure_is_caught_and_logged:
  "attempt env m p txt lang w = Inl e \<Longrightarrow>
     transcribe_and_save env m file p txt lang w =
       w\<lparr>trace := trace w @ [Transcribe m p lang, Print (Stamped (TranscriptionError file e))]\<rparr>"
  by (simp add: transcribe_and_save_effect)

lemma saved_text_is_model_text:
  "attempt env m p txt lang w = Inr text \<Longrightarrow>
     \<exists>content. fs w p = Some (File content) \<and> asr env m p content lang = Inr text"
  by (auto simp: attempt_def split: option.splits node.splits sum.splits if_splits)


lemma conversion_subset:
  "x \<in> set EXTENSIONS_REQUIRING_CONVERSION \<Longrightarrow> x \<in> set EXTENSIONS_SUPPORTED"
  by (auto simp add: EXTENSIONS_REQUIRING_CONVERSION_def EXTENSIONS_SUPPORTED_def)

subsection \<open>One file\<close>

lemma transcribe_single_file_supported:
  assumes "lower (snd (splitext file)) \<in> set EXTENSIONS_SUPPORTED"
  shows "\<exists>r w1. transcribe_single_file env m file ip out lang w =
           (case r of
              None \<Rightarrow> (None, transcribe_and_save env m file (resolved ip file) (txt_target out file) lang w1)
            | Some e \<Rightarrow> (Some e, w1))
     \<and> started (trace w1) = started (trace w) @ [file]
     \<and> finished (trace w1) = finished (trace w)
     \<and> transcribed (trace w1) = transcribed (trace w)
     \<and> loads (trace w1) = loads (trace w)
     \<and> written (trace w1) = written (trace w)
     \<and> conversions (trace w1) = conversions (trace w) @
          (if lower (snd (splitext file)) \<in> set EXTENSIONS_REQUIRING_CONVERSION
              \<and> \<not> exists w (mp3_sibling ip file)
           then [(join ip file, mp3_sibling ip file)] else [])
     \<and> (\<forall>p. p \<noteq> mp3_sibling ip file \<longrightarrow> fs w1 p = fs w p)
     \<and> (lower (snd (splitext file)) \<notin> set EXTENSIONS_REQUIRING_CONVERSION
          \<or> exists w (mp3_sibling ip file) \<or> converter_starts env \<longrightarrow> r = None)"
proof (cases "lower (snd (splitext file)) \<in> set EXTENSIONS_REQUIRING_CONVERSION")
  case False
  with assms show ?thesis
    by (intro exI[of _ None] exI[of _ "emit (Print (Stamped (TranscriptionStart file)))
                          (emit (Print (Plain (FileHeader file))) w)"])
       (simp add: transcribe_single_file_def Let_def resolved_def trace_emit fs_emit obs_simps)
next
  case True
  let ?w0 = "emit (Print (Plain (FileHeader file))) w"
  obtain r w2 where c: "conversion_branch (convert_to_mp3 env) file ip ?w0 = (r, w2)"
    and o: "conversions (trace w2) = conversions (trace ?w0) @
         (if exists ?w0 (mp3_sibling ip file) then [] else [(join ip file, mp3_sibling ip file)])"
    "started (trace w2) = started (trace ?w0)" "finished (trace w2) = finished (trace ?w0)"
    "transcribed (trace w2) = transcribed (trace ?w0)" "loads (trace w2) = loads (trace ?w0)"
    "written (trace w2) = written (trace ?w0)"
    "\<forall>p. p \<noteq> mp3_sibling ip file \<longrightarrow> fs w2 p = fs ?w0 p"
    and n: "exists ?w0 (mp3_sibling ip file) \<or> converter_starts env \<longrightarrow> r = None"
    using conversion_branch_effect[OF tame_convert_to_mp3] by blast
  show ?thesis
  proof (cases r)
    case None
    with assms True c o show ?thesis
      by (intro exI[of _ None] exI[of _ "emit (Print (Stamped (TranscriptionStart file))) w2"])
         (simp add: transcribe_single_file_def Let_def resolved_def trace_emit fs_emit exists_emit
           obs_simps)
  next
    case (Some e)
    with assms True c o n show ?thesis
      by (intro exI[of _ "Some e"] exI[of _ w2])
         (auto simp add: transcribe_single_file_def Let_def resolved_def trace_emit fs_emit
           exists_emit obs_simps)
  qed
qed

lemma transcribe_single_file_unsupported:
  assumes "lower (snd (splitext file)) \<notin> set EXTENSIONS_SUPPORTED"
  shows "transcribe_single_file env m file ip out lang w =
           (None, w\<lparr>trace := trace w @ [Print (Plain (FileHeader file)),
                                        Print (Stamped (SkippingUnsupported file))]\<rparr>)"
  using assms by (simp add: transcribe_single_file_def Let_def emit_def)

lemma load_model_effect:
  "load_model env name dev w =
     (case load env name dev of
        Some e \<Rightarrow> Inl e
      | None \<Rightarrow> Inr \<lparr>model_name = name, device = dev, instance_id = length (loads (trace w))\<rparr>,
      emit (LoadModel \<lparr>model_name = name, device = dev, instance_id = length (loads (trace w))\<rparr>) w)"
  by (simp add: load_model_def Let_def split: option.splits)

lemma w_transcribe_single_file_load_fails:
  assumes "load env name dev = Some e"
  shows "w_transcribe_single_file env name dev file ip out lang w =
           (Some e, w\<lparr>trace := trace w @
              [Print (Plain (FileHeader file)),
               LoadModel \<lparr>model_name = name, device = dev, instance_id = length (loads (trace w))\<rparr>]\<rparr>)"
  using assms
  by (simp add: w_transcribe_single_file_def load_model_effect emit_def obs_simps)

lemma w_transcribe_single_file_supported:
  assumes "lower (snd (splitext file)) \<in> set EXTENSIONS_SUPPORTED"
    and "load env name dev = None"
  shows "\<exists>r w1. w_transcribe_single_file env name dev file ip out lang w =
           (case r of
              None \<Rightarrow> (None, transcribe_and_save env
                    \<lparr>model_name = name, device = dev, instance_id = length (loads (trace w))\<rparr>
                    file (join ip file) (txt_target out file) lang w1)
            | Some e \<Rightarrow> (Some e, w1))
     \<and> started (trace w1) = started (trace w) @ [file]
     \<and> finished (trace w1) = finished (trace w)
     \<and> transcribed (trace w1) = transcribed (trace w)
     \<and> loads (trace w1) = loads (trace w) @
          [\<lparr>model_name = name, device = dev, instance_id = length (loads (trace w))\<rparr>]
     \<and> written (trace w1) = written (trace w)
     \<and> conversions (trace w1) = conversions (trace w) @
          (if lower (snd (splitext file)) \<in> set EXTENSIONS_REQUIRING_CONVERSION
              \<and> \<not> exists w (mp3_sibling ip file)
           then [(join ip file, mp3_sibling ip file)] else [])
     \<and> (\<forall>p. p \<noteq> mp3_sibling ip file \<longrightarrow> fs w1 p = fs w p)
     \<and> (lower (snd (splitext file)) \<notin> set EXTENSIONS_REQUIRING_CONVERSION
          \<or> exists w (mp3_sibling ip file) \<or> converter_starts env \<longrightarrow> r = None)"
proof (cases "lower (snd (splitext file)) \<in> set EXTENSIONS_REQUIRING_CONVERSION")
  case False
  with assms show ?thesis
    by (intro exI[of _ None] exI[of _ "emit (Print (Stamped (TranscriptionStart file)))
                          (emit (LoadModel \<lparr>model_name = name, device = dev,
                                   instance_id = length (loads (trace w))\<rparr>)
                             (emit (Print (Plain (FileHeader file))) w))"])
       (simp add: w_transcribe_single_file_def load_model_effect Let_def trace_emit fs_emit obs_simps)
next
  case True
  let ?m = "\<lparr>model_name = name, device = dev, instance_id = length (loads (trace w))\<rparr>"
  let ?w0 = "emit (LoadModel ?m) (emit (Print (Plain (FileHeader file))) w)"
  obtain r w2 where c: "conversion_branch (w_convert_to_mp3 env) file ip ?w0 = (r, w2)"
    and o: "conversions (trace w2) = conversions (trace ?w0) @
         (if exists ?w0 (mp3_sibling ip file) then [] else [(join ip file, mp3_sibling ip file)])"
    "started (trace w2) = started (trace ?w0)" "finished (trace w2) = finished (trace ?w0)"
    "transcribed (trace w2) = transcribed (trace ?w0)" "loads (trace w2) = loads (trace ?w0)"
    "written (trace w2) = written (trace ?w0)"
    "\<forall>p. p \<noteq> mp3_sibling ip file \<longrightarrow> fs w2 p = fs ?w0 p"
    and n: "exists ?w0 (mp3_sibling ip file) \<or> converter_starts env \<longrightarrow> r = None"
    using conversion_branch_effect[OF tame_w_convert_to_mp3] by blast
  show ?thesis
  proof (cases r)
    case None
    with assms True c o show ?thesis
      by (intro exI[of _ None] exI[of _ "emit (Print (Stamped (TranscriptionStart file))) w2"])
         (simp add: w_transcribe_single_file_def load_model_effect Let_def trace_emit fs_emit
           exists_emit obs_simps)
  next
    case (Some e)
    with assms True c o n show ?thesis
      by (intro exI[of _ "Some e"] exI[of _ w2])
         (auto simp add: w_transcribe_single_file_def load_model_effect Let_def trace_emit fs_emit
           exists_emit obs_simps)
  qed
qed

lemma w_transcribe_single_file_unsupported:
  assumes "lower (snd (splitext file)) \<notin> set EXTENSIONS_SUPPORTED"
    and "load env name dev = None"
  shows "w_transcribe_single_file env name dev file ip out lang w =
           (None, w\<lparr>trace := trace w @
              [Print (Plain (FileHeader file)),
               LoadModel \<lparr>model_name = name, device = dev, instance_id = length (loads (trace w))\<rparr>,
               Print (Stamped (SkippingUnsupported file))]\<rparr>)"
  using assms
  by (simp add: w_transcribe_single_file_def load_model_effect Let_def emit_def obs_simps)

text \<open>A supported file whose processing no exception leaves.\<close>

lemma transcribe_single_file_obs:
  assumes "lower (snd (splitext file)) \<in> set EXTENSIONS_SUPPORTED"
    and "lower (snd (splitext file)) \<notin> set EXTENSIONS_REQUIRING_CONVERSION
          \<or> exists w (mp3_sibling ip file) \<or> converter_starts env"
  shows "fst (transcribe_single_file env m file ip out lang w) = None"
    and "started (trace (snd (transcribe_single_file env m file ip out lang w))) = started (trace w) @ [file]"
    and "finished (trace (snd (transcribe_single_file env m file ip out lang w))) = finished (trace w) @ [file]"
    and "transcribed (trace (snd (transcribe_single_file env m file ip out lang w))) =
           transcribed (trace w) @ [(m, resolved ip file)]"
    and "loads (trace (snd (transcribe_single_file env m file ip out lang w))) = loads (trace w)"
  using transcribe_single_file_supported[OF assms(1), of env m ip out lang w] assms(2)
  by (auto simp: transcribe_and_save_obs)

lemma w_transcribe_single_file_obs:
  assumes "lower (snd (splitext file)) \<in> set EXTENSIONS_SUPPORTED"
    and "load env name dev = None"
    and "lower (snd (splitext file)) \<notin> set EXTENSIONS_REQUIRING_CONVERSION
          \<or> exists w (mp3_sibling ip file) \<or> converter_starts env"
  shows "fst (w_transcribe_single_file env name dev file ip out lang w) = None"
    and "started (trace (snd (w_transcribe_single_file env name dev file ip out lang w))) = started (trace w) @ [file]"
    and "finished (trace (snd (w_transcribe_single_file env name dev file ip out lang w))) = finished (trace w) @ [file]"
    and "transcribed (trace (snd (w_transcribe_single_file env name dev file ip out lang w))) =
           transcribed (trace w) @
             [(\<lparr>model_name = name, device = dev, instance_id = length (loads (trace w))\<rparr>, join ip file)]"
    and "loads (trace (snd (w_transcribe_single_file env name dev file ip out lang w))) =
           loads (trace w) @ [\<lparr>model_name = name, device = dev, instance_id = length (loads (trace w))\<rparr>]"
  using w_transcribe_single_file_supported[OF assms(1,2), where ?ip = ip and ?w = w and ?out = out and ?lang = lang] assms(3)
  by (auto simp: transcribe_and_save_obs)

text \<open>Any file, whether or not an exception leaves its processing.\<close>

lemma transcribe_single_file_started:
  "started (trace (snd (transcribe_single_file env m file ip out lang w))) = started (trace w) @ [file]"
proof (cases "lower (snd (splitext file)) \<in> set EXTENSIONS_SUPPORTED")
  case True
  from transcribe_single_file_supported[OF True, of env m ip out lang w] show ?thesis
    by (auto simp: transcribe_and_save_obs split: option.splits)
next
  case False
  then show ?thesis by (simp add: transcribe_single_file_unsupported obs_simps)
qed

lemma transcribe_single_file_shape:
  "run_shape m w (snd (transcribe_single_file env m file ip out lang w))"
proof (cases "lower (snd (splitext file)) \<in> set EXTENSIONS_SUPPORTED")
  case True
  obtain r w1 where s: "transcribe_single_file env m file ip out lang w =
           (case r of
              None \<Rightarrow> (None, transcribe_and_save env m file (resolved ip file) (txt_target out file) lang w1)
            | Some e \<Rightarrow> (Some e, w1))"
    and o: "transcribed (trace w1) = transcribed (trace w)" "loads (trace w1) = loads (trace w)"
    using transcribe_single_file_supported[OF True, of env m ip out lang w] by blast
  show ?thesis
  proof (cases r)
    case None
    with s o show ?thesis
      unfolding run_shape_def
      by (intro conjI exI[of _ "[resolved ip file]"]) (simp_all add: transcribe_and_save_obs)
  next
    case (Some e)
    with s o show ?thesis
      unfolding run_shape_def by (intro conjI exI[of _ "[]"]) simp_all
  qed
next
  case False
  show ?thesis
    unfolding run_shape_def transcribe_single_file_unsupported[OF False]
    by (intro conjI exI[of _ "[]"]) (simp_all add: obs_simps)
qed


lemma w_transcribe_single_file_started:
  "started (trace (snd (w_transcribe_single_file env name dev file ip out lang w))) =
     started (trace w) @ [file]"
proof (cases "load env name dev")
  case (Some e)
  then show ?thesis by (simp add: w_transcribe_single_file_load_fails obs_simps)
next
  case None
  show ?thesis
  proof (cases "lower (snd (splitext file)) \<in> set EXTENSIONS_SUPPORTED")
    case True
    from w_transcribe_single_file_supported[OF True None, where ?ip = ip and ?w = w and ?out = out and ?lang = lang]
    show ?thesis by (auto simp: transcribe_and_save_obs split: option.splits)
  next
    case False
    then show ?thesis by (simp add: w_transcribe_single_file_unsupported[OF False None] obs_simps)
  qed
qed

lemma w_run_shape_one:
  assumes "loads (trace w') = loads (trace w) @
             [\<lparr>model_name = name, device = dev, instance_id = length (loads (trace w))\<rparr>]"
    and "length (started (trace w')) = Suc (length (started (trace w)))"
    and "transcribed (trace w') = transcribed (trace w) @ ps"
    and "fst ` set ps \<subseteq> {\<lparr>model_name = name, device = dev, instance_id = length (loads (trace w))\<rparr>}"
  shows "w_run_shape name dev w w'"
  unfolding w_run_shape_def
  using assms by (intro exI[of _ 1] exI[of _ ps]) auto

lemma w_transcribe_single_file_shape:
  "w_run_shape name dev w (snd (w_transcribe_single_file env name dev file ip out lang w))"
proof (cases "load env name dev")
  case (Some e)
  show ?thesis
    by (rule w_run_shape_one[where ps = "[]"])
       (simp_all add: w_transcribe_single_file_load_fails[OF Some] obs_simps)
next
  case None
  let ?m = "\<lparr>model_name = name, device = dev, instance_id = length (loads (trace w))\<rparr>"
  show ?thesis
  proof (cases "lower (snd (splitext file)) \<in> set EXTENSIONS_SUPPORTED")
    case True
    obtain r w1 where s: "w_transcribe_single_file env name dev file ip out lang w =
           (case r of
              None \<Rightarrow> (None, transcribe_and_save env ?m file (join ip file) (txt_target out file) lang w1)
            | Some e \<Rightarrow> (Some e, w1))"
      and o: "started (trace w1) = started (trace w) @ [file]"
        "transcribed (trace w1) = transcribed (trace w)"
        "loads (trace w1) = loads (trace w) @ [?m]"
      using w_transcribe_single_file_supported[OF True None, where ?ip = ip and ?w = w and ?out = out and ?lang = lang]
      by blast
    show ?thesis
    proof (cases r)
      case None
      with s o show ?thesis
        by (intro w_run_shape_one[where ps = "[(?m, join ip file)]"])
           (simp_all add: transcribe_and_save_obs)
    next
      case (Some e)
      with s o show ?thesis
        by (intro w_run_shape_one[where ps = "[]"]) simp_all
    qed
  next
    case False
    show ?thesis
      by (rule w_run_shape_one[where ps = "[]"])
         (simp_all add: w_transcribe_single_file_unsupported[OF False None] obs_simps)
  qed
qed


subsection \<open>The loop\<close>


text \<open>In any case the loop runs through an initial segment of the list.\<close>

lemma for_each_prefix:
  assumes "\<And>x w. x \<in> set xs \<Longrightarrow> obs (trace (snd (body x w))) = obs (trace w) @ [x]"
  shows "\<exists>k. k \<le> length xs
       \<and> obs (trace (snd (for_each body xs w))) = obs (trace w) @ take k xs
       \<and> (fst (for_each body xs w) = None \<longrightarrow> k = length xs)"
  using assms(1)
proof (induction xs arbitrary: w)
  case Nil
  then show ?case by simp
next
  case (Cons x xs)
  obtain r w1 where b: "body x w = (r, w1)" by (cases "body x w") auto
  have hd: "obs (trace w1) = obs (trace w) @ [x]"
    using Cons.prems[of x w] b by simp
  show ?case
  proof (cases r)
    case (Some e)
    with b hd show ?thesis by (intro exI[of _ 1]) simp
  next
    case None
    obtain k where k: "k \<le> length xs"
      "obs (trace (snd (for_each body xs w1))) = obs (trace w1) @ take k xs"
      "fst (for_each body xs w1) = None \<longrightarrow> k = length xs"
      using Cons.IH[of w1] Cons.prems by auto
    with None b hd show ?thesis by (intro exI[of _ "Suc k"]) simp
  qed
qed

text \<open>A reflexive and transitive relation between worlds that every step keeps.\<close>

lemma for_each_rel:
  assumes "\<And>w. R w w" and "\<And>a b c. R a b \<Longrightarrow> R b c \<Longrightarrow> R a c"
    and "\<And>x w. R w (snd (body x w))"
  shows "R w (snd (for_each body xs w))"
proof (induction xs arbitrary: w)
  case Nil
  then show ?case by (simp add: assms(1))
next
  case (Cons x xs)
  obtain r w1 where b: "body x w = (r, w1)" by (cases "body x w") auto
  have s: "R w w1" using assms(3)[of w x] b by simp
  show ?case
  proof (cases r)
    case (Some e)
    with b s show ?thesis by simp
  next
    case None
    with b show ?thesis using assms(2)[OF s Cons.IH[of w1]] by simp
  qed
qed

lemma run_shape_refl: "run_shape m w w"
  unfolding run_shape_def by (intro conjI exI[of _ "[]"]) simp_all

lemma run_shape_trans:
  assumes "run_shape m a b" and "run_shape m b c"
  shows "run_shape m a c"
proof -
  from assms obtain ps qs where
    "loads (trace b) = loads (trace a)" "transcribed (trace b) = transcribed (trace a) @ map (Pair m) ps"
    "loads (trace c) = loads (trace b)" "transcribed (trace c) = transcribed (trace b) @ map (Pair m) qs"
    unfolding run_shape_def by blast
  then show ?thesis
    unfolding run_shape_def by (intro conjI exI[of _ "ps @ qs"]) simp_all
qed

lemma w_run_shape_refl: "w_run_shape name dev w w"
  unfolding w_run_shape_def by (intro exI[of _ 0] exI[of _ "[]"]) simp

lemma w_run_shape_trans:
  assumes "w_run_shape name dev a b" and "w_run_shape name dev b c"
  shows "w_run_shape name dev a c"
proof -
  define M where "M = (\<lambda>i. \<lparr>model_name = name, device = dev, instance_id = i\<rparr>)"
  define n where "n = length (loads (trace a))"
  from assms(1)[unfolded w_run_shape_def, folded M_def n_def] obtain k ps where 1:
    "loads (trace b) = loads (trace a) @ map M [n ..< n + k]"
    "length (started (trace b)) = length (started (trace a)) + k"
    "transcribed (trace b) = transcribed (trace a) @ ps"
    "fst ` set ps \<subseteq> M ` {n ..< n + k}"
    by blast
  have nb: "length (loads (trace b)) = n + k" using 1(1) by (simp add: n_def)
  from assms(2)[unfolded w_run_shape_def nb, folded M_def] obtain j qs where 2:
    "loads (trace c) = loads (trace b) @ map M [n + k ..< n + k + j]"
    "length (started (trace c)) = length (started (trace b)) + j"
    "transcribed (trace c) = transcribed (trace b) @ qs"
    "fst ` set qs \<subseteq> M ` {n + k ..< n + k + j}"
    by blast
  have "[n ..< (n + k) + j] = [n ..< n + k] @ [n + k ..< n + k + j]"
    by (rule upt_add_eq_append) simp
  then have u: "[n ..< n + (k + j)] = [n ..< n + k] @ [n + k ..< n + k + j]"
    by (simp only: add.assoc)
  have l: "loads (trace c) = loads (trace a) @ map M [n ..< n + (k + j)]"
    unfolding u 2(1) 1(1) by simp
  have st: "length (started (trace c)) = length (started (trace a)) + (k + j)"
    unfolding 2(2) 1(2) by simp
  have tr: "transcribed (trace c) = transcribed (trace a) @ (ps @ qs)"
    unfolding 2(3) 1(3) by simp
  have "{n ..< n + k} \<subseteq> {n ..< n + (k + j)}" "{n + k ..< n + k + j} \<subseteq> {n ..< n + (k + j)}"
    by auto
  then have "M ` {n ..< n + k} \<subseteq> M ` {n ..< n + (k + j)}"
    "M ` {n + k ..< n + k + j} \<subseteq> M ` {n ..< n + (k + j)}"
    by (simp_all only: image_mono)
  with 1(4) 2(4) have s: "fst ` set (ps @ qs) \<subseteq> M ` {n ..< n + (k + j)}"
    unfolding set_append image_Un by blast
  have "\<exists>k ps. loads (trace c) = loads (trace a) @ map M [n ..< n + k]
            \<and> length (started (trace c)) = length (started (trace a)) + k
            \<and> transcribed (trace c) = transcribed (trace a) @ ps
            \<and> fst ` set ps \<subseteq> M ` {n ..< n + k}"
    using l st tr s by blast
  then show ?thesis
    unfolding w_run_shape_def M_def n_def .
qed

subsection \<open>Ordering\<close>

lemma mset_order_files: "mset (order_files env ip oc xs) = mset xs"
  by (simp add: order_files_def sort_reverse_def)




subsection \<open>The batch\<close>



lemma transcribe_multiple_files_prefix:
  assumes "listdir env ip = Inr names"
  shows "\<exists>k. k \<le> length (order_files env ip oc (supported_files ip w names))
       \<and> started (trace (snd (transcribe_multiple_files env m ip out lang oc w))) =
           started (trace w) @ take k (order_files env ip oc (supported_files ip w names))
       \<and> (fst (transcribe_multiple_files env m ip out lang oc w) = None
            \<longrightarrow> k = length (order_files env ip oc (supported_files ip w names)))"
  unfolding transcribe_multiple_files_def assms sum.case
  by (rule for_each_prefix) (rule transcribe_single_file_started)

lemma w_transcribe_multiple_files_prefix:
  assumes "listdir env ip = Inr names"
  shows "\<exists>k. k \<le> length (order_files env ip oc (supported_files ip w names))
       \<and> started (trace (snd (w_transcribe_multiple_files env name dev ip out lang oc w))) =
           started (trace w) @ take k (order_files env ip oc (supported_files ip w names))
       \<and> (fst (w_transcribe_multiple_files env name dev ip out lang oc w) = None
            \<longrightarrow> k = length (order_files env ip oc (supported_files ip w names)))"
  unfolding w_transcribe_multiple_files_def assms sum.case
  by (rule for_each_prefix) (rule w_transcribe_single_file_started)

lemma transcribe_multiple_files_shape:
  "run_shape m w (snd (transcribe_multiple_files env m ip out lang oc w))"
proof (cases "listdir env ip")
  case (Inl e)
  then show ?thesis by (simp add: transcribe_multiple_files_def run_shape_refl)
next
  case (Inr names)
  show ?thesis
    unfolding transcribe_multiple_files_def Inr sum.case
    by (rule for_each_rel[where R = "run_shape m"])
       (rule run_shape_refl, erule (1) run_shape_trans, rule transcribe_single_file_shape)
qed

lemma w_transcribe_multiple_files_shape:
  "w_run_shape name dev w (snd (w_transcribe_multiple_files env name dev ip out lang oc w))"
proof (cases "listdir env ip")
  case (Inl e)
  then show ?thesis by (simp add: w_transcribe_multiple_files_def w_run_shape_refl)
next
  case (Inr names)
  show ?thesis
    unfolding w_transcribe_multiple_files_def Inr sum.case
    by (rule for_each_rel[where R = "w_run_shape name dev"])
       (rule w_run_shape_refl, erule (1) w_run_shape_trans, rule w_transcribe_single_file_shape)
qed

subsection \<open>Prompts\<close>

lemma ask_again_effect:
  "ask_again p tidy ok answ ls = (r, rest, evs) \<Longrightarrow>
     started evs = [] \<and> finished evs = [] \<and> transcribed evs = [] \<and> conversions evs = []
     \<and> loads evs = [] \<and> written evs = []
     \<and> (case r of Inl e \<Rightarrow> e = EOFError | Inr a \<Rightarrow> ok a)"
proof (induction p tidy ok answ ls arbitrary: r rest evs rule: ask_again.induct)
  case (1 p tidy ok answ)
  then show ?case by (auto simp: obs_simps split: if_splits)
next
  case (2 p tidy ok answ l ls)
  show ?case
  proof (cases "ok answ")
    case True
    with 2(2) show ?thesis by (auto simp: obs_simps)
  next
    case False
    obtain r' rest' evs' where rec: "ask_again p tidy ok (tidy l) ls = (r', rest', evs')"
      by (cases "ask_again p tidy ok (tidy l) ls") auto
    with False 2(2) have eq: "r = r'" "evs = Prompt p # evs'" by auto
    from 2(1)[OF False rec] eq show ?thesis by (simp add: obs_simps)
  qed
qed

lemma ask_effect:
  assumes "ask p1 tidy1 p2 tidy2 ok w = (r, w1)"
  shows "fs w1 = fs w \<and> started (trace w1) = started (trace w)
     \<and> finished (trace w1) = finished (trace w) \<and> transcribed (trace w1) = transcribed (trace w)
     \<and> conversions (trace w1) = conversions (trace w) \<and> loads (trace w1) = loads (trace w)
     \<and> written (trace w1) = written (trace w)
     \<and> (case r of Inl e \<Rightarrow> e = EOFError | Inr a \<Rightarrow> ok a)"
proof (cases "stdin w")
  case Nil
  with assms show ?thesis by (auto simp: ask_def emit_def obs_simps)
next
  case (Cons l ls)
  obtain r' rest evs where rec: "ask_again p2 tidy2 ok (tidy1 l) ls = (r', rest, evs)"
    by (cases "ask_again p2 tidy2 ok (tidy1 l) ls") auto
  with Cons assms have eq: "r = r'" "w1 = w\<lparr>stdin := rest, trace := trace w @ Prompt p1 # evs\<rparr>"
    by (auto simp: ask_def)
  from ask_again_effect[OF rec] eq show ?thesis by (simp add: obs_simps)
qed

lemma and_then_rule:
  assumes "\<And>e w1. r = (Inl e, w1) \<Longrightarrow> Q (Some e, w1)"
    and "\<And>x w1. r = (Inr x, w1) \<Longrightarrow> Q (rest x w1)"
  shows "Q (and_then r rest)"
proof (cases r)
  case (Pair a w1)
  then show ?thesis using assms by (cases a) (simp_all add: and_then_def)
qed

subsection \<open>A whole run\<close>

lemma main_effect:
  "\<exists>ms ps. loads (trace (snd (main env w))) = loads (trace w) @ ms
     \<and> transcribed (trace (snd (main env w))) = transcribed (trace w) @ map (Pair (hd ms)) ps
     \<and> (ms = [] \<longrightarrow> ps = [])
     \<and> length ms \<le> 1
     \<and> (fst (main env w) = None \<longrightarrow> ms \<noteq> [])
     \<and> (\<forall>m\<in>set ms. \<exists>answ w1. user_device_choice w = (Inr answ, w1)
            \<and> (answ = ''Y'' \<or> answ = ''N'') \<and> device m = chosen_device env answ)
     \<and> (\<forall>answ w1 name w2. user_device_choice w = (Inr answ, w1) \<and> get_model_name w1 = (Inr name, w2)
            \<longrightarrow> ms = [\<lparr>model_name = name, device = chosen_device env answ,
                          instance_id = length (loads (trace w))\<rparr>])"
  (is "?Q (main env w)")
  unfolding main_def
proof (rule and_then_rule)
  fix e w1 assume a: "user_device_choice w = (Inl e, w1)"
  from ask_effect[OF a[unfolded user_device_choice_def]] a
  show "?Q (Some e, w1)" by (intro exI[of _ "[]"]) simp
next
  fix answ w1 assume a1: "user_device_choice w = (Inr answ, w1)"
  note k1 = ask_effect[OF a1[unfolded user_device_choice_def]]
  have yn: "answ = ''Y'' \<or> answ = ''N''" using k1 by auto
  let ?dev = "if answ = ''N'' then ''cpu'' else get_device env"
  have dev: "?dev = chosen_device env answ"
    using yn by (auto simp: chosen_device_def get_device_def)
  show "?Q (let dev = ?dev in and_then (get_model_name w1) (\<lambda>name w2.
         and_then (load_model env name dev (emit (Print (Stamped (LoadingModel name dev))) w2))
           (\<lambda>m w3.
             and_then (get_input_path (emit (Print (Stamped ModelLoaded)) w3)) (\<lambda>in_path w5.
               and_then (get_language w5) (\<lambda>language w6.
                 let single_file = isfile w6 in_path in
                 and_then (get_output_path single_file w6) (\<lambda>out_path w7.
                   if single_file then
                     transcribe_single_file env m (basename in_path) (dirname in_path) out_path
                       language (emit (Print (Plain Separator)) w7)
                   else
                     and_then (get_order_criterion w7) (\<lambda>order_criterion w8.
                       transcribe_multiple_files env m in_path out_path language order_criterion
                         (emit (Print (Plain Separator)) w8))))))))"
    unfolding Let_def
  proof (rule and_then_rule)
    fix e w2 assume a: "get_model_name w1 = (Inl e, w2)"
    from ask_effect[OF a[unfolded get_model_name_def]] k1 a1 a
    show "?Q (Some e, w2)" by (intro exI[of _ "[]"]) simp
  next
    fix name w2 assume a2: "get_model_name w1 = (Inr name, w2)"
    note k2 = ask_effect[OF a2[unfolded get_model_name_def]]
    let ?m = "\<lparr>model_name = name, device = ?dev, instance_id = length (loads (trace w))\<rparr>"
    let ?w3 = "emit (LoadModel ?m) (emit (Print (Stamped (LoadingModel name ?dev))) w2)"
    have ld: "load_model env name ?dev (emit (Print (Stamped (LoadingModel name ?dev))) w2) =
                (case load env name ?dev of Some e \<Rightarrow> Inl e | None \<Rightarrow> Inr ?m, ?w3)"
      using k1 k2
      by (cases "load env name ?dev") (simp_all add: load_model_effect trace_emit obs_simps)
    have l3: "loads (trace ?w3) = loads (trace w) @ [?m]"
      and t3: "transcribed (trace ?w3) = transcribed (trace w)"
      using k1 k2 by (simp_all add: trace_emit obs_simps)
    have dm: "\<exists>answ w1. user_device_choice w = (Inr answ, w1)
            \<and> (answ = ''Y'' \<or> answ = ''N'') \<and> device ?m = chosen_device env answ"
      using a1 yn dev by auto
    have fin: "?Q res" if "loads (trace (snd res)) = loads (trace ?w3)"
      and "\<exists>ps. transcribed (trace (snd res)) = transcribed (trace ?w3) @ map (Pair ?m) ps"
    for res
    proof -
      from that(2) obtain ps where ps:
        "transcribed (trace (snd res)) = transcribed (trace ?w3) @ map (Pair ?m) ps" by blast
      show ?thesis
        apply (intro exI[of _ "[?m]"] exI[of _ ps])
        using that(1) ps l3 t3 dm a1 a2 dev by auto
    qed
    have same: "\<exists>ps. transcribed (trace w') = transcribed (trace ?w3) @ map (Pair ?m) ps"
      if "transcribed (trace w') = transcribed (trace ?w3)" for w'
      using that by (intro exI[of _ "[]"]) simp
    show "?Q (and_then (load_model env name ?dev (emit (Print (Stamped (LoadingModel name ?dev))) w2))
           (\<lambda>m w3.
             and_then (get_input_path (emit (Print (Stamped ModelLoaded)) w3)) (\<lambda>in_path w5.
               and_then (get_language w5) (\<lambda>language w6.
                 and_then (get_output_path (isfile w6 in_path) w6) (\<lambda>out_path w7.
                   if isfile w6 in_path then
                     transcribe_single_file env m (basename in_path) (dirname in_path) out_path
                       language (emit (Print (Plain Separator)) w7)
                   else
                     and_then (get_order_criterion w7) (\<lambda>order_criterion w8.
                       transcribe_multiple_files env m in_path out_path language order_criterion
                         (emit (Print (Plain Separator)) w8)))))))"
    proof (rule and_then_rule)
      fix e w3 assume a: "load_model env name ?dev (emit (Print (Stamped (LoadingModel name ?dev))) w2) = (Inl e, w3)"
      then have "w3 = ?w3" unfolding ld by simp
      then show "?Q (Some e, w3)" by (intro fin same) simp_all
    next
      fix m w3 assume a: "load_model env name ?dev (emit (Print (Stamped (LoadingModel name ?dev))) w2) = (Inr m, w3)"
      then have mw: "m = ?m" "w3 = ?w3" unfolding ld by (auto split: option.splits)
      let ?w4 = "emit (Print (Stamped ModelLoaded)) ?w3"
      have o4: "loads (trace ?w4) = loads (trace ?w3)" "transcribed (trace ?w4) = transcribed (trace ?w3)"
        by (simp_all add: trace_emit obs_simps)
      show "?Q (and_then (get_input_path (emit (Print (Stamped ModelLoaded)) w3)) (\<lambda>in_path w5.
               and_then (get_language w5) (\<lambda>language w6.
                 and_then (get_output_path (isfile w6 in_path) w6) (\<lambda>out_path w7.
                   if isfile w6 in_path then
                     transcribe_single_file env m (basename in_path) (dirname in_path) out_path
                       language (emit (Print (Plain Separator)) w7)
                   else
                     and_then (get_order_criterion w7) (\<lambda>order_criterion w8.
                       transcribe_multiple_files env m in_path out_path language order_criterion
                         (emit (Print (Plain Separator)) w8))))))"
        unfolding mw
      proof (rule and_then_rule)
        fix e w5 assume a: "get_input_path ?w4 = (Inl e, w5)"
        from ask_effect[OF a[unfolded get_input_path_def]] o4
        show "?Q (Some e, w5)" by (intro fin same) simp_all
      next
        fix in_path w5 assume a3: "get_input_path ?w4 = (Inr in_path, w5)"
        note k3 = ask_effect[OF a3[unfolded get_input_path_def]]
        show "?Q (and_then (get_language w5) (\<lambda>language w6.
                 and_then (get_output_path (isfile w6 in_path) w6) (\<lambda>out_path w7.
                   if isfile w6 in_path then
                     transcribe_single_file env ?m (basename in_path) (dirname in_path) out_path
                       language (emit (Print (Plain Separator)) w7)
                   else
                     and_then (get_order_criterion w7) (\<lambda>order_criterion w8.
                       transcribe_multiple_files env ?m in_path out_path language order_criterion
                         (emit (Print (Plain Separator)) w8)))))"
        proof (rule and_then_rule)
          fix e w6 assume a: "get_language w5 = (Inl e, w6)"
          from ask_effect[OF a[unfolded get_language_def]] k3 o4
          show "?Q (Some e, w6)" by (intro fin same) simp_all
        next
          fix language w6 assume a4: "get_language w5 = (Inr language, w6)"
          note k4 = ask_effect[OF a4[unfolded get_language_def]]
          show "?Q (and_then (get_output_path (isfile w6 in_path) w6) (\<lambda>out_path w7.
                   if isfile w6 in_path then
                     transcribe_single_file env ?m (basename in_path) (dirname in_path) out_path
                       language (emit (Print (Plain Separator)) w7)
                   else
                     and_then (get_order_criterion w7) (\<lambda>order_criterion w8.
                       transcribe_multiple_files env ?m in_path out_path language order_criterion
                         (emit (Print (Plain Separator)) w8))))"
          proof (rule and_then_rule)
            fix e w7 assume a: "get_output_path (isfile w6 in_path) w6 = (Inl e, w7)"
            from ask_effect[OF a[unfolded get_output_path_def]] k3 k4 o4
            show "?Q (Some e, w7)" by (intro fin same) simp_all
          next
            fix out_path w7 assume a5: "get_output_path (isfile w6 in_path) w6 = (Inr out_path, w7)"
            note k5 = ask_effect[OF a5[unfolded get_output_path_def]]
            let ?w8 = "emit (Print (Plain Separator)) w7"
            have o8: "loads (trace ?w8) = loads (trace ?w3)"
              "transcribed (trace ?w8) = transcribed (trace ?w3)"
              using k3 k4 k5 o4 by (simp_all add: trace_emit obs_simps)
            show "?Q (if isfile w6 in_path then
                     transcribe_single_file env ?m (basename in_path) (dirname in_path) out_path
                       language ?w8
                   else
                     and_then (get_order_criterion w7) (\<lambda>order_criterion w8.
                       transcribe_multiple_files env ?m in_path out_path language order_criterion
                         (emit (Print (Plain Separator)) w8)))"
            proof (cases "isfile w6 in_path")
              case True
              show ?thesis unfolding if_P[OF True]
                using transcribe_single_file_shape[of ?m ?w8 env "basename in_path" "dirname in_path"
                    out_path language, unfolded run_shape_def] o8
                by (intro fin) simp_all
            next
              case False
              show ?thesis unfolding if_not_P[OF False]
              proof (rule and_then_rule)
                fix e w9 assume a: "get_order_criterion w7 = (Inl e, w9)"
                from ask_effect[OF a[unfolded get_order_criterion_def]] k3 k4 k5 o4
                show "?Q (Some e, w9)" by (intro fin same) simp_all
              next
                fix oc w9 assume a6: "get_order_criterion w7 = (Inr oc, w9)"
                note k6 = ask_effect[OF a6[unfolded get_order_criterion_def]]
                let ?w10 = "emit (Print (Plain Separator)) w9"
                have o10: "loads (trace ?w10) = loads (trace ?w3)"
                  "transcribed (trace ?w10) = transcribed (trace ?w3)"
                  using k3 k4 k5 k6 o4 by (simp_all add: trace_emit obs_simps)
                show "?Q (transcribe_multiple_files env ?m in_path out_path language oc ?w10)"
                  using transcribe_multiple_files_shape[of ?m ?w10 env in_path out_path language oc,
                      unfolded run_shape_def] o10
                  by (intro fin) simp_all
              qed
            qed
          qed
        qed
      qed
    qed
  qed
qed

lemma w_run_shape_from:
  assumes "w_run_shape name dev w' w''"
    and "loads (trace w') = loads (trace w)" and "started (trace w') = started (trace w)"
    and "transcribed (trace w') = transcribed (trace w)"
  shows "w_run_shape name dev w w''"
  using assms unfolding w_run_shape_def by simp

lemma w_main_effect:
  "(loads (trace (snd (w_main env w))) = loads (trace w)
      \<and> started (trace (snd (w_main env w))) = started (trace w)
      \<and> transcribed (trace (snd (w_main env w))) = transcribed (trace w))
   \<or> (\<exists>answ w1 name. user_device_choice w = (Inr answ, w1) \<and> (answ = ''Y'' \<or> answ = ''N'')
         \<and> w_run_shape name (chosen_device env answ) w (snd (w_main env w)))"
  (is "?Q (w_main env w)")
  unfolding w_main_def
proof (rule and_then_rule)
  fix e w1 assume a: "user_device_choice w = (Inl e, w1)"
  from ask_effect[OF a[unfolded user_device_choice_def]]
  show "?Q (Some e, w1)" by simp
next
  fix answ w1 assume a1: "user_device_choice w = (Inr answ, w1)"
  note k1 = ask_effect[OF a1[unfolded user_device_choice_def]]
  have yn: "answ = ''Y'' \<or> answ = ''N''" using k1 by auto
  let ?dev = "if answ = ''N'' then ''cpu'' else get_device env"
  have dev: "?dev = chosen_device env answ"
    using yn by (auto simp: chosen_device_def get_device_def)
  have fin: "?Q res" if "w_run_shape name ?dev w' (snd res)"
    and "loads (trace w') = loads (trace w)" and "started (trace w') = started (trace w)"
    and "transcribed (trace w') = transcribed (trace w)" for res name w'
    using w_run_shape_from[OF that] a1 yn dev by auto
  show "?Q (let dev = ?dev in
       and_then (get_model_name w1) (\<lambda>name w2.
         and_then (w_get_input_path w2) (\<lambda>in_path w3.
           and_then (get_language w3) (\<lambda>language w4.
             let single_file = isfile w4 in_path in
             and_then (w_get_output_path single_file w4) (\<lambda>out_path w5.
               if single_file then
                 w_transcribe_single_file env name dev (basename in_path) (dirname in_path)
                   out_path language (emit (Print (Plain Separator)) w5)
               else
                 and_then (get_order_criterion w5) (\<lambda>order_criterion w6.
                   w_transcribe_multiple_files env name dev in_path out_path language
                     order_criterion (emit (Print (Plain Separator)) w6)))))))"
    unfolding Let_def
  proof (rule and_then_rule)
    fix e w2 assume a: "get_model_name w1 = (Inl e, w2)"
    from ask_effect[OF a[unfolded get_model_name_def]] k1
    show "?Q (Some e, w2)" by simp
  next
    fix name w2 assume a2: "get_model_name w1 = (Inr name, w2)"
    note k2 = ask_effect[OF a2[unfolded get_model_name_def]]
    show "?Q (and_then (w_get_input_path w2) (\<lambda>in_path w3.
           and_then (get_language w3) (\<lambda>language w4.
             and_then (w_get_output_path (isfile w4 in_path) w4) (\<lambda>out_path w5.
               if isfile w4 in_path then
                 w_transcribe_single_file env name ?dev (basename in_path) (dirname in_path)
                   out_path language (emit (Print (Plain Separator)) w5)
               else
                 and_then (get_order_criterion w5) (\<lambda>order_criterion w6.
                   w_transcribe_multiple_files env name ?dev in_path out_path language
                     order_criterion (emit (Print (Plain Separator)) w6))))))"
    proof (rule and_then_rule)
      fix e w3 assume a: "w_get_input_path w2 = (Inl e, w3)"
      from ask_effect[OF a[unfolded w_get_input_path_def]] k1 k2
      show "?Q (Some e, w3)" by simp
    next
      fix in_path w3 assume a3: "w_get_input_path w2 = (Inr in_path, w3)"
      note k3 = ask_effect[OF a3[unfolded w_get_input_path_def]]
      show "?Q (and_then (get_language w3) (\<lambda>language w4.
             and_then (w_get_output_path (isfile w4 in_path) w4) (\<lambda>out_path w5.
               if isfile w4 in_path then
                 w_transcribe_single_file env name ?dev (basename in_path) (dirname in_path)
                   out_path language (emit (Print (Plain Separator)) w5)
               else
                 and_then (get_order_criterion w5) (\<lambda>order_criterion w6.
                   w_transcribe_multiple_files env name ?dev in_path out_path language
                     order_criterion (emit (Print (Plain Separator)) w6)))))"
      proof (rule and_then_rule)
        fix e w4 assume a: "get_language w3 = (Inl e, w4)"
        from ask_effect[OF a[unfolded get_language_def]] k1 k2 k3
        show "?Q (Some e, w4)" by simp
      next
        fix language w4 assume a4: "get_language w3 = (Inr language, w4)"
        note k4 = ask_effect[OF a4[unfolded get_language_def]]
        show "?Q (and_then (w_get_output_path (isfile w4 in_path) w4) (\<lambda>out_path w5.
               if isfile w4 in_path then
                 w_transcribe_single_file env name ?dev (basename in_path) (dirname in_path)
                   out_path language (emit (Print (Plain Separator)) w5)
               else
                 and_then (get_order_criterion w5) (\<lambda>order_criterion w6.
                   w_transcribe_multiple_files env name ?dev in_path out_path language
                     order_criterion (emit (Print (Plain Separator)) w6))))"
        proof (rule and_then_rule)
          fix e w5 assume a: "w_get_output_path (isfile w4 in_path) w4 = (Inl e, w5)"
          from ask_effect[OF a[unfolded w_get_output_path_def]] k1 k2 k3 k4
          show "?Q (Some e, w5)" by simp
        next
          fix out_path w5
          assume a5: "w_get_output_path (isfile w4 in_path) w4 = (Inr out_path, w5)"
          note k5 = ask_effect[OF a5[unfolded w_get_output_path_def]]
          let ?w6 = "emit (Print (Plain Separator)) w5"
          have o6: "loads (trace ?w6) = loads (trace w)" "started (trace ?w6) = started (trace w)"
            "transcribed (trace ?w6) = transcribed (trace w)"
            using k1 k2 k3 k4 k5 by (simp_all add: trace_emit obs_simps)
          show "?Q (if isfile w4 in_path then
                 w_transcribe_single_file env name ?dev (basename in_path) (dirname in_path)
                   out_path language ?w6
               else
                 and_then (get_order_criterion w5) (\<lambda>order_criterion w6.
                   w_transcribe_multiple_files env name ?dev in_path out_path language
                     order_criterion (emit (Print (Plain Separator)) w6)))"
          proof (cases "isfile w4 in_path")
            case True
            show ?thesis unfolding if_P[OF True]
              by (rule fin[OF w_transcribe_single_file_shape o6])
          next
            case False
            show ?thesis unfolding if_not_P[OF False]
            proof (rule and_then_rule)
              fix e w7 assume a: "get_order_criterion w5 = (Inl e, w7)"
              from ask_effect[OF a[unfolded get_order_criterion_def]] k1 k2 k3 k4 k5
              show "?Q (Some e, w7)" by simp
            next
              fix oc w7 assume a6: "get_order_criterion w5 = (Inr oc, w7)"
              note k6 = ask_effect[OF a6[unfolded get_order_criterion_def]]
              let ?w8 = "emit (Print (Plain Separator)) w7"
              have o8: "loads (trace ?w8) = loads (trace w)"
                "started (trace ?w8) = started (trace w)"
                "transcribed (trace ?w8) = transcribed (trace w)"
                using k1 k2 k3 k4 k5 k6 by (simp_all add: trace_emit obs_simps)
              show "?Q (w_transcribe_multiple_files env name ?dev in_path out_path language oc ?w8)"
                by (rule fin[OF w_transcribe_multiple_files_shape o8])
            qed
          qed
        qed
      qed
    qed
  qed
qed

subsection \<open>The claims\<close>

text \<open>
  Claim C8. \<open>extract_number\<close> applied to \<open>clip_(12).wav\<close> returns the integer 12, and
  applied to \<open>clip.wav\<close> it returns no value.
\<close>

theorem extract_number_examples:
  "extract_number ''clip_(12).wav'' = Some 12 \<and> extract_number ''clip.wav'' = None"
  by (simp add: match_here_def is_digit_def code_def)





text \<open>
  Claim C4 as it is stated, that the files processed are a permutation of the filtered
  listing, fails where the converter is not installed: under criterion 5 the run is
  ended at the second file, and the two files started are not a permutation of the
  three files of the filtered listing.
\<close>

theorem processed_is_not_a_permutation_when_aborted:
  "listdir env_no_ffmpeg ''/in'' = Inr [''b.wav'', ''a_(10).mkv'', ''a_(9).mp3'', ''notes.txt'']
   \<and> filter (\<lambda>f. isfile w0 (join ''/in'' f) \<and> lower (snd (splitext f)) \<in> set EXTENSIONS_SUPPORTED)
        [''b.wav'', ''a_(10).mkv'', ''a_(9).mp3'', ''notes.txt''] =
       [''b.wav'', ''a_(10).mkv'', ''a_(9).mp3'']
   \<and> started (trace (snd (transcribe_multiple_files env_no_ffmpeg m0 ''/in'' ''/out'' ''English'' ''5'' w0))) =
       [''a_(9).mp3'', ''a_(10).mkv'']
   \<and> mset (started (trace (snd (transcribe_multiple_files env_no_ffmpeg m0 ''/in'' ''/out'' ''English'' ''5'' w0)))) \<noteq>
       mset [''b.wav'', ''a_(10).mkv'', ''a_(9).mp3'']"
proof -
  have 1: "listdir env_no_ffmpeg ''/in'' = Inr [''b.wav'', ''a_(10).mkv'', ''a_(9).mp3'', ''notes.txt'']"
    by code_simp
  have 2: "filter (\<lambda>f. isfile w0 (join ''/in'' f) \<and> lower (snd (splitext f)) \<in> set EXTENSIONS_SUPPORTED)
        [''b.wav'', ''a_(10).mkv'', ''a_(9).mp3'', ''notes.txt''] =
       [''b.wav'', ''a_(10).mkv'', ''a_(9).mp3'']" by code_simp
  have 3: "started (trace (snd (transcribe_multiple_files env_no_ffmpeg m0 ''/in'' ''/out'' ''English'' ''5'' w0))) =
       [''a_(9).mp3'', ''a_(10).mkv'']" by code_simp
  have 4: "mset [''a_(9).mp3'', ''a_(10).mkv''] \<noteq> mset [''b.wav'', ''a_(10).mkv'', ''a_(9).mp3'']"
  proof
    assume "mset [''a_(9).mp3'', ''a_(10).mkv''] = mset [''b.wav'', ''a_(10).mkv'', ''a_(9).mp3'']"
    then have "size (mset [''a_(9).mp3'', ''a_(10).mkv'']) = size (mset [''b.wav'', ''a_(10).mkv'', ''a_(9).mp3''])"
      by (rule arg_cong)
    then show False by simp
  qed
  from 1 2 3 4 show ?thesis by simp
qed

text \<open>
  Claim C4, amended. For every directory listing that can be read and every ordering
  criterion, the ordered sequence the multi-file dispatcher iterates over is a
  permutation of the filtered listing, the regular files with an extension of the
  supported list, each as often as the listing has it; the files it processes are an
  initial segment of that sequence, and the whole of it when no exception ends the
  run. This holds in both scripts.
\<close>

theorem processed_is_prefix_of_permutation:
  assumes "listdir env ip = Inr names"
  shows "mset (order_files env ip oc (supported_files ip w names)) =
           mset (filter (\<lambda>f. isfile w (join ip f) \<and> lower (snd (splitext f)) \<in> set EXTENSIONS_SUPPORTED) names)
   \<and> (\<exists>k. started (trace (snd (transcribe_multiple_files env m ip out lang oc w))) =
             started (trace w) @ take k (order_files env ip oc (supported_files ip w names)))
   \<and> (fst (transcribe_multiple_files env m ip out lang oc w) = None \<longrightarrow>
        started (trace (snd (transcribe_multiple_files env m ip out lang oc w))) =
          started (trace w) @ order_files env ip oc (supported_files ip w names))
   \<and> (\<exists>k. started (trace (snd (w_transcribe_multiple_files env name dev ip out lang oc w))) =
             started (trace w) @ take k (order_files env ip oc (supported_files ip w names)))
   \<and> (fst (w_transcribe_multiple_files env name dev ip out lang oc w) = None \<longrightarrow>
        started (trace (snd (w_transcribe_multiple_files env name dev ip out lang oc w))) =
          started (trace w) @ order_files env ip oc (supported_files ip w names))"
proof -
  have A: "mset (order_files env ip oc (supported_files ip w names)) =
           mset (filter (\<lambda>f. isfile w (join ip f) \<and> lower (snd (splitext f)) \<in> set EXTENSIONS_SUPPORTED) names)"
    by (simp add: mset_order_files supported_files_def)
  from transcribe_multiple_files_prefix[OF assms, of oc w m out lang]
  have B: "(\<exists>k. started (trace (snd (transcribe_multiple_files env m ip out lang oc w))) =
             started (trace w) @ take k (order_files env ip oc (supported_files ip w names)))
   \<and> (fst (transcribe_multiple_files env m ip out lang oc w) = None \<longrightarrow>
        started (trace (snd (transcribe_multiple_files env m ip out lang oc w))) =
          started (trace w) @ order_files env ip oc (supported_files ip w names))"
    by auto
  from w_transcribe_multiple_files_prefix[OF assms, of oc w name dev out lang]
  have C: "(\<exists>k. started (trace (snd (w_transcribe_multiple_files env name dev ip out lang oc w))) =
             started (trace w) @ take k (order_files env ip oc (supported_files ip w names)))
   \<and> (fst (w_transcribe_multiple_files env name dev ip out lang oc w) = None \<longrightarrow>
        started (trace (snd (w_transcribe_multiple_files env name dev ip out lang oc w))) =
          started (trace w) @ order_files env ip oc (supported_files ip w names))"
    by auto
  from A B C show ?thesis by blast
qed

text \<open>On the example: the three media files are processed, the text file is not.\<close>

theorem processed_is_prefix_of_permutation_witness:
  "listdir env0 ''/in'' = Inr [''b.wav'', ''a_(10).mkv'', ''a_(9).mp3'', ''notes.txt'']
   \<and> fst (transcribe_multiple_files env0 m0 ''/in'' ''/out'' ''English'' ''2'' w0) = None
   \<and> fst (w_transcribe_multiple_files env0 ''tiny'' ''cpu'' ''/in'' ''/out'' ''English'' ''2'' w0) = None
   \<and> mset (started (trace (snd (transcribe_multiple_files env0 m0 ''/in'' ''/out'' ''English'' ''2'' w0)))) =
       mset [''b.wav'', ''a_(10).mkv'', ''a_(9).mp3'']
   \<and> mset (started (trace (snd (w_transcribe_multiple_files env0 ''tiny'' ''cpu'' ''/in'' ''/out'' ''English'' ''2'' w0)))) =
       mset [''b.wav'', ''a_(10).mkv'', ''a_(9).mp3'']"
proof -
  let ?names = "[''b.wav'', ''a_(10).mkv'', ''a_(9).mp3'', ''notes.txt'']"
  have l: "listdir env0 ''/in'' = Inr ?names" by code_simp
  have f: "filter (\<lambda>f. isfile w0 (join ''/in'' f) \<and> lower (snd (splitext f)) \<in> set EXTENSIONS_SUPPORTED)
             ?names = [''b.wav'', ''a_(10).mkv'', ''a_(9).mp3'']"
    by code_simp
  have s: "started (trace w0) = []" by code_simp
  have n: "fst (transcribe_multiple_files env0 m0 ''/in'' ''/out'' ''English'' ''2'' w0) = None"
    "fst (w_transcribe_multiple_files env0 ''tiny'' ''cpu'' ''/in'' ''/out'' ''English'' ''2'' w0) = None"
    by code_simp+
  from processed_is_prefix_of_permutation[OF l, of "''2''" w0 m0 "''/out''" "''English''" "''tiny''" "''cpu''"]
  have p: "mset (order_files env0 ''/in'' ''2'' (supported_files ''/in'' w0 ?names)) =
             mset [''b.wav'', ''a_(10).mkv'', ''a_(9).mp3'']"
    and a: "started (trace (snd (transcribe_multiple_files env0 m0 ''/in'' ''/out'' ''English'' ''2'' w0))) =
          started (trace w0) @ order_files env0 ''/in'' ''2'' (supported_files ''/in'' w0 ?names)"
    and b: "started (trace (snd (w_transcribe_multiple_files env0 ''tiny'' ''cpu'' ''/in'' ''/out'' ''English'' ''2'' w0))) =
          started (trace w0) @ order_files env0 ''/in'' ''2'' (supported_files ''/in'' w0 ?names)"
    unfolding f using n by blast+
  from l n p show ?thesis unfolding a b s by simp
qed

lemma number_key_le:
  "number_key a \<le> number_key b \<Longrightarrow> extract_number b = Some n \<Longrightarrow>
     \<exists>k. extract_number a = Some k \<and> k \<le> n"
  by (cases "extract_number a") (simp_all add: number_key_def)

text \<open>
  Claim C3. Under criterion 5, a file at a later position that carries a bracketed
  number is preceded only by files that carry one too, with a number that is not
  larger: files without a number come after all files with one, and the files with one
  are in ascending numeric order.
\<close>

theorem criterion_5_order:
  assumes "i < j" and "j < length (order_files env ip ''5'' files)"
    and "extract_number (order_files env ip ''5'' files ! j) = Some n"
  shows "\<exists>k. extract_number (order_files env ip ''5'' files ! i) = Some k \<and> k \<le> n"
proof -
  let ?ys = "order_files env ip ''5'' files"
  have ys: "?ys = sort_key number_key files"
    by (simp add: order_files_def)
  have "sorted (map number_key ?ys)"
    by (simp add: ys)
  then have "map number_key ?ys ! i \<le> map number_key ?ys ! j"
    using assms(1,2) by (simp add: sorted_iff_nth_mono_less)
  then have "number_key (?ys ! i) \<le> number_key (?ys ! j)"
    using assms(1,2) by simp
  then show ?thesis
    using assms(3) by (rule number_key_le)
qed

text \<open>On the example directory: 9 comes before 10, and the file without a number is last.\<close>

theorem criterion_5_order_witness:
  "order_files env0 ''/in'' ''5''
     (supported_files ''/in'' w0 [''b.wav'', ''a_(10).mkv'', ''a_(9).mp3'', ''notes.txt'']) =
     [''a_(9).mp3'', ''a_(10).mkv'', ''b.wav'']
   \<and> extract_number (order_files env0 ''/in'' ''5''
        (supported_files ''/in'' w0 [''b.wav'', ''a_(10).mkv'', ''a_(9).mp3'', ''notes.txt'']) ! 1) = Some 10
   \<and> (\<exists>k. extract_number (order_files env0 ''/in'' ''5''
        (supported_files ''/in'' w0 [''b.wav'', ''a_(10).mkv'', ''a_(9).mp3'', ''notes.txt'']) ! 0) = Some k
          \<and> k \<le> 10)"
proof -
  let ?ys = "order_files env0 ''/in'' ''5''
     (supported_files ''/in'' w0 [''b.wav'', ''a_(10).mkv'', ''a_(9).mp3'', ''notes.txt''])"
  have ys: "?ys = [''a_(9).mp3'', ''a_(10).mkv'', ''b.wav'']" by code_simp
  have h1: "(0::nat) < 1" by simp
  have h2: "1 < length ?ys" by (simp add: ys)
  have h3: "extract_number (?ys ! 1) = Some 10" by code_simp
  from criterion_5_order[OF h1 h2 h3] ys h3 show ?thesis by blast
qed

text \<open>
  Claim C5. For a file with an extension of the conversion list, the converter is not
  called when something exists at the path of the mp3 sibling, and is called once,
  from the input path to that sibling, when nothing does: existence of the path alone
  decides. This holds in both scripts (in the older one the file is reached only when
  the model has loaded).
\<close>

theorem existing_mp3_skips_converter:
  assumes "lower (snd (splitext file)) \<in> set EXTENSIONS_REQUIRING_CONVERSION"
  shows "conversions (trace (snd (transcribe_single_file env m file ip out lang w))) =
           conversions (trace w) @
             (if exists w (mp3_sibling ip file) then [] else [(join ip file, mp3_sibling ip file)])
       \<and> conversions (trace (snd (w_transcribe_single_file env name dev file ip out lang w))) =
           conversions (trace w) @
             (if exists w (mp3_sibling ip file) then []
              else if load env name dev = None then [(join ip file, mp3_sibling ip file)]
              else [])"
proof -
  have sup: "lower (snd (splitext file)) \<in> set EXTENSIONS_SUPPORTED"
    using assms by (rule conversion_subset)
  have A: "conversions (trace (snd (transcribe_single_file env m file ip out lang w))) =
           conversions (trace w) @
             (if exists w (mp3_sibling ip file) then [] else [(join ip file, mp3_sibling ip file)])"
    using transcribe_single_file_supported[OF sup, of env m ip out lang w] assms
    by (auto simp: transcribe_and_save_obs split: option.splits)
  have B: "conversions (trace (snd (w_transcribe_single_file env name dev file ip out lang w))) =
           conversions (trace w) @
             (if exists w (mp3_sibling ip file) then []
              else if load env name dev = None then [(join ip file, mp3_sibling ip file)]
              else [])"
  proof (cases "load env name dev")
    case (Some e)
    then show ?thesis by (simp add: w_transcribe_single_file_load_fails obs_simps)
  next
    case None
    then show ?thesis
      using w_transcribe_single_file_supported[OF sup None, where ?ip = ip and ?w = w and ?out = out and ?lang = lang]
        assms
      by (auto simp: transcribe_and_save_obs split: option.splits)
  qed
  from A B show ?thesis by blast
qed

text \<open>On the example: with the mp3 sibling in place no conversion, without it one.\<close>

theorem existing_mp3_skips_converter_witness:
  "lower (snd (splitext ''a_(10).mkv'')) \<in> set EXTENSIONS_REQUIRING_CONVERSION
   \<and> exists w0_mp3 (mp3_sibling ''/in'' ''a_(10).mkv'')
   \<and> conversions (trace (snd (transcribe_single_file env0 m0 ''a_(10).mkv'' ''/in'' ''/out'' ''English'' w0_mp3))) = []
   \<and> conversions (trace (snd (w_transcribe_single_file env0 ''tiny'' ''cpu'' ''a_(10).mkv'' ''/in'' ''/out'' ''English'' w0_mp3))) = []
   \<and> conversions (trace (snd (transcribe_single_file env0 m0 ''a_(10).mkv'' ''/in'' ''/out'' ''English'' w0))) =
        [(''/in/a_(10).mkv'', ''/in/a_(10).mp3'')]
   \<and> conversions (trace (snd (w_transcribe_single_file env0 ''tiny'' ''cpu'' ''a_(10).mkv'' ''/in'' ''/out'' ''English'' w0))) =
        [(''/in/a_(10).mkv'', ''/in/a_(10).mp3'')]"
proof -
  have h: "lower (snd (splitext ''a_(10).mkv'')) \<in> set EXTENSIONS_REQUIRING_CONVERSION"
    by code_simp
  have e: "exists w0_mp3 (mp3_sibling ''/in'' ''a_(10).mkv'')" by code_simp
  have n: "\<not> exists w0 (mp3_sibling ''/in'' ''a_(10).mkv'')" by code_simp
  have t: "conversions (trace w0_mp3) = []" "conversions (trace w0) = []" by code_simp+
  have l: "load env0 ''tiny'' ''cpu'' = None" by code_simp
  have j: "join ''/in'' ''a_(10).mkv'' = ''/in/a_(10).mkv''"
    "mp3_sibling ''/in'' ''a_(10).mkv'' = ''/in/a_(10).mp3''" by code_simp+
  from existing_mp3_skips_converter[OF h, of env0 m0 "''/in''" "''/out''" "''English''" w0_mp3 "''tiny''" "''cpu''"]
    existing_mp3_skips_converter[OF h, of env0 m0 "''/in''" "''/out''" "''English''" w0 "''tiny''" "''cpu''"]
    h e n t j l
  show ?thesis by simp
qed

text \<open>
  Claim C9. The two scripts differ in how often the model is loaded. A run of
  \<open>transcriber.py\<close> that ends without an exception loads exactly one model, and
  every transcription of the run uses that instance. A run of
  \<open>whisper_transcriber.py\<close> loads one model for every file it starts, each load a
  distinct instance, so a batch of N files performs N loads.
\<close>

theorem model_loads_once_versus_per_file:
  assumes "trace w = []" and "fst (main env w) = None"
  shows "(\<exists>m. loads (trace (snd (main env w))) = [m]
            \<and> map fst (transcribed (trace (snd (main env w)))) =
                replicate (length (transcribed (trace (snd (main env w))))) m)
       \<and> length (loads (trace (snd (w_main env w)))) = length (started (trace (snd (w_main env w))))
       \<and> distinct (loads (trace (snd (w_main env w))))
       \<and> fst ` set (transcribed (trace (snd (w_main env w)))) \<subseteq> set (loads (trace (snd (w_main env w))))"
proof -
  have o: "loads (trace w) = []" "started (trace w) = []" "transcribed (trace w) = []"
    using assms(1) by (simp_all add: obs_simps)
  obtain ms ps where m: "loads (trace (snd (main env w))) = loads (trace w) @ ms"
    "transcribed (trace (snd (main env w))) = transcribed (trace w) @ map (Pair (hd ms)) ps"
    "length ms \<le> 1"
    "fst (main env w) = None \<longrightarrow> ms \<noteq> []"
    using main_effect[of env w] by (elim exE conjE) (rule that, assumption+)
  from m(3,4) assms(2) obtain m1 where ms: "ms = [m1]"
    by (cases ms) auto
  have A: "\<exists>m. loads (trace (snd (main env w))) = [m]
            \<and> map fst (transcribed (trace (snd (main env w)))) =
                replicate (length (transcribed (trace (snd (main env w))))) m"
    using m(1,2) ms o by (auto simp: comp_def map_replicate_const)
  have B: "length (loads (trace (snd (w_main env w)))) = length (started (trace (snd (w_main env w))))
       \<and> distinct (loads (trace (snd (w_main env w))))
       \<and> fst ` set (transcribed (trace (snd (w_main env w)))) \<subseteq> set (loads (trace (snd (w_main env w))))"
  proof -
    from w_main_effect[of env w] consider
      (eof) "loads (trace (snd (w_main env w))) = loads (trace w)"
        "started (trace (snd (w_main env w))) = started (trace w)"
        "transcribed (trace (snd (w_main env w))) = transcribed (trace w)"
      | (run) answ name where "w_run_shape name (chosen_device env answ) w (snd (w_main env w))"
      by blast
    then show ?thesis
    proof cases
      case eof
      then show ?thesis using o by simp
    next
      case run
      then obtain k ps where
        l: "loads (trace (snd (w_main env w))) =
              map (\<lambda>i. \<lparr>model_name = name, device = chosen_device env answ, instance_id = i\<rparr>) [0 ..< k]"
        and s: "length (started (trace (snd (w_main env w)))) = k"
        and t: "transcribed (trace (snd (w_main env w))) = ps"
          "fst ` set ps \<subseteq> (\<lambda>i. \<lparr>model_name = name, device = chosen_device env answ, instance_id = i\<rparr>) ` {0 ..< k}"
        unfolding w_run_shape_def using o by auto
      have "distinct (loads (trace (snd (w_main env w))))"
        unfolding l by (simp add: distinct_map inj_on_def)
      with l s t show ?thesis by auto
    qed
  qed
  from A B show ?thesis by blast
qed

text \<open>On the example: three files, one load in one script and three in the other.\<close>

theorem model_loads_once_versus_per_file_witness:
  "trace w0 = [] \<and> fst (main env0 w0) = None
   \<and> length (started (trace (snd (main env0 w0)))) = 3
   \<and> (\<exists>m. loads (trace (snd (main env0 w0))) = [m]
          \<and> map fst (transcribed (trace (snd (main env0 w0)))) =
              replicate (length (transcribed (trace (snd (main env0 w0))))) m)
   \<and> length (started (trace (snd (w_main env0 w0)))) = 3
   \<and> length (loads (trace (snd (w_main env0 w0)))) = length (started (trace (snd (w_main env0 w0))))
   \<and> distinct (loads (trace (snd (w_main env0 w0))))"
proof -
  have h1: "trace w0 = []" by code_simp
  have h2: "fst (main env0 w0) = None" by code_simp
  have n: "length (started (trace (snd (main env0 w0)))) = 3"
    "length (started (trace (snd (w_main env0 w0)))) = 3" by code_simp+
  from model_loads_once_versus_per_file[OF h1 h2] h1 h2 n show ?thesis by blast
qed

text \<open>
  Claim C10. The device of every model a run loads is \<open>cuda\<close> exactly when a CUDA GPU
  is available and the validated answer to the GPU prompt is \<open>Y\<close>, and it is \<open>cpu\<close>
  otherwise; answering \<open>Y\<close> without a GPU gives \<open>cpu\<close> and the run goes on:
  \<open>transcriber.py\<close> calls the loader on that device as soon as the model name is
  given, \<open>whisper_transcriber.py\<close> calls it on that device for every file it starts.
\<close>

theorem device_is_cuda_iff_available_and_yes:
  assumes "trace w = []" and "user_device_choice w = (Inr answ, w1)"
    and "m \<in> set (loads (trace (snd (main env w)))) \<or> m \<in> set (loads (trace (snd (w_main env w))))"
  shows "(answ = ''Y'' \<or> answ = ''N'')
       \<and> (device m = ''cuda'' \<longleftrightarrow> cuda_is_available env \<and> answ = ''Y'')
       \<and> (device m = ''cuda'' \<or> device m = ''cpu'')
       \<and> (\<forall>name w2. get_model_name w1 = (Inr name, w2) \<longrightarrow>
            loads (trace (snd (main env w))) =
              [\<lparr>model_name = name,
                device = (if cuda_is_available env \<and> answ = ''Y'' then ''cuda'' else ''cpu''),
                instance_id = 0\<rparr>])
       \<and> map device (loads (trace (snd (w_main env w)))) =
           replicate (length (started (trace (snd (w_main env w)))))
             (if cuda_is_available env \<and> answ = ''Y'' then ''cuda'' else ''cpu'')"
proof -
  have o: "loads (trace w) = []" "started (trace w) = []" using assms(1) by (simp_all add: obs_simps)
  have yn: "answ = ''Y'' \<or> answ = ''N''"
    using ask_effect[OF assms(2)[unfolded user_device_choice_def]] by auto
  obtain ms where ms: "loads (trace (snd (main env w))) = loads (trace w) @ ms"
    "\<forall>m\<in>set ms. \<exists>answ w1. user_device_choice w = (Inr answ, w1)
            \<and> (answ = ''Y'' \<or> answ = ''N'') \<and> device m = chosen_device env answ"
    "\<forall>answ w1 name w2. user_device_choice w = (Inr answ, w1) \<and> get_model_name w1 = (Inr name, w2)
            \<longrightarrow> ms = [\<lparr>model_name = name, device = chosen_device env answ,
                          instance_id = length (loads (trace w))\<rparr>]"
    using main_effect[of env w] by blast
  have W: "map device (loads (trace (snd (w_main env w)))) =
           replicate (length (started (trace (snd (w_main env w))))) (chosen_device env answ)
         \<and> (\<forall>m \<in> set (loads (trace (snd (w_main env w)))). device m = chosen_device env answ)"
  proof -
    from w_main_effect[of env w] consider
      (eof) "loads (trace (snd (w_main env w))) = loads (trace w)"
        "started (trace (snd (w_main env w))) = started (trace w)"
      | (run) answ' w1' name where "user_device_choice w = (Inr answ', w1')"
        "w_run_shape name (chosen_device env answ') w (snd (w_main env w))"
      by blast
    then show ?thesis
    proof cases
      case eof
      then show ?thesis using o by simp
    next
      case run
      then have "answ' = answ" using assms(2) by simp
      with run(2) obtain k where
        l: "loads (trace (snd (w_main env w))) =
              map (\<lambda>i. \<lparr>model_name = name, device = chosen_device env answ, instance_id = i\<rparr>) [0 ..< k]"
        and s: "length (started (trace (snd (w_main env w)))) = k"
        unfolding w_run_shape_def using o by auto
      show ?thesis unfolding l s by (auto simp: comp_def map_replicate_const)
    qed
  qed
  have dm: "device m = chosen_device env answ"
    using assms(3)
  proof
    assume "m \<in> set (loads (trace (snd (main env w))))"
    then show ?thesis using ms(1,2) assms(2) o by auto
  next
    assume "m \<in> set (loads (trace (snd (w_main env w))))"
    then show ?thesis using W by blast
  qed
  have L: "\<forall>name w2. get_model_name w1 = (Inr name, w2) \<longrightarrow>
            loads (trace (snd (main env w))) =
              [\<lparr>model_name = name, device = chosen_device env answ, instance_id = 0\<rparr>]"
    using ms(1,3) assms(2) o by auto
  from yn dm L W show ?thesis by (auto simp: chosen_device_def)
qed

text \<open>
  On the example: the answer is yes, there is no GPU, \<open>transcriber.py\<close> loads the
  model once on the CPU and \<open>whisper_transcriber.py\<close> three times on the CPU.
\<close>

theorem device_is_cuda_iff_available_and_yes_witness:
  "trace w0 = [] \<and> fst (user_device_choice w0) = Inr ''Y'' \<and> \<not> cuda_is_available env0
   \<and> loads (trace (snd (main env0 w0))) = [m0] \<and> device m0 = ''cpu''
   \<and> loads (trace (snd (w_main env0 w0))) =
       [\<lparr>model_name = ''tiny'', device = ''cpu'', instance_id = 0\<rparr>,
        \<lparr>model_name = ''tiny'', device = ''cpu'', instance_id = 1\<rparr>,
        \<lparr>model_name = ''tiny'', device = ''cpu'', instance_id = 2\<rparr>]
   \<and> length (started (trace (snd (w_main env0 w0)))) = 3
   \<and> map device (loads (trace (snd (w_main env0 w0)))) = [''cpu'', ''cpu'', ''cpu'']"
proof -
  have h1: "trace w0 = []" by code_simp
  have u: "fst (user_device_choice w0) = Inr ''Y''" by code_simp
  then have h2: "user_device_choice w0 = (Inr ''Y'', snd (user_device_choice w0))"
    by (cases "user_device_choice w0") simp
  have l: "loads (trace (snd (main env0 w0))) = [m0]" by code_simp
  have lw: "loads (trace (snd (w_main env0 w0))) =
       [\<lparr>model_name = ''tiny'', device = ''cpu'', instance_id = 0\<rparr>,
        \<lparr>model_name = ''tiny'', device = ''cpu'', instance_id = 1\<rparr>,
        \<lparr>model_name = ''tiny'', device = ''cpu'', instance_id = 2\<rparr>]" by code_simp
  have sw: "length (started (trace (snd (w_main env0 w0)))) = 3" by code_simp
  have h3: "m0 \<in> set (loads (trace (snd (main env0 w0)))) \<or> m0 \<in> set (loads (trace (snd (w_main env0 w0))))"
    using l by simp
  have h3w: "\<lparr>model_name = ''tiny'', device = ''cpu'', instance_id = 2\<rparr> \<in> set (loads (trace (snd (main env0 w0))))
      \<or> \<lparr>model_name = ''tiny'', device = ''cpu'', instance_id = 2\<rparr> \<in> set (loads (trace (snd (w_main env0 w0))))"
    using lw by simp
  have c: "\<not> cuda_is_available env0" by code_simp
  from device_is_cuda_iff_available_and_yes[OF h1 h2 h3]
  have d: "device m0 = ''cpu''" using c by auto
  from device_is_cuda_iff_available_and_yes[OF h1 h2 h3w] c sw
  have dw: "map device (loads (trace (snd (w_main env0 w0)))) = [''cpu'', ''cpu'', ''cpu'']"
    by (simp add: numeral_3_eq_3)
  from h1 u c l d lw sw dw show ?thesis by blast
qed




text \<open>
  Claim C1, on the input where the older script departs from it. The claim: for an
  extension of the conversion list the model is called on the mp3 sibling and its text
  is written to the output path, in both scripts. For \<open>a_(10).mkv\<close>
  \<open>whisper_transcriber.py\<close> runs the converter to the mp3 sibling and then calls the
  model on the mkv, writing the text of the mkv; \<open>transcriber.py\<close> calls the model
  on the mp3 sibling and writes its text.
\<close>

theorem older_script_transcribes_the_original_path:
  "lower (snd (splitext ''a_(10).mkv'')) \<in> set EXTENSIONS_REQUIRING_CONVERSION
   \<and> resolved ''/in'' ''a_(10).mkv'' = ''/in/a_(10).mp3''
   \<and> conversions (trace (snd (w_transcribe_single_file env0 ''tiny'' ''cpu'' ''a_(10).mkv'' ''/in'' ''/out''
         ''English'' w0))) = [(''/in/a_(10).mkv'', ''/in/a_(10).mp3'')]
   \<and> transcribed (trace (snd (w_transcribe_single_file env0 ''tiny'' ''cpu'' ''a_(10).mkv'' ''/in'' ''/out''
         ''English'' w0))) = [(m0, ''/in/a_(10).mkv'')]
   \<and> written (trace (snd (w_transcribe_single_file env0 ''tiny'' ''cpu'' ''a_(10).mkv'' ''/in'' ''/out''
         ''English'' w0))) = [(''/out/a_(10).txt'', ''text of video'')]
   \<and> transcribed (trace (snd (transcribe_single_file env0 m0 ''a_(10).mkv'' ''/in'' ''/out''
         ''English'' w0))) = [(m0, ''/in/a_(10).mp3'')]
   \<and> written (trace (snd (transcribe_single_file env0 m0 ''a_(10).mkv'' ''/in'' ''/out''
         ''English'' w0))) = [(''/out/a_(10).txt'', ''text of audio of video'')]"
  by code_simp

text \<open>
  Claim C6, on the input where the older script departs from it. The claim: a
  converter that exits with a nonzero status is reported with the error, and the file
  is skipped because the transcription then fails on the missing mp3, in both scripts.
  With a converter that exits with status 1 and writes nothing,
  \<open>whisper_transcriber.py\<close> prints that the conversion completed and goes on to
  transcribe the mkv and write its text; \<open>transcriber.py\<close> prints the error and
  writes nothing.
\<close>

theorem older_script_hides_conversion_failure:
  "ffmpeg env_fail ''/in/a_(10).mkv'' (fs w0 ''/in/a_(10).mkv'') = Inr (1, None)
   \<and> trace (snd (w_convert_to_mp3 env_fail ''/in/a_(10).mkv'' ''/in/a_(10).mp3'' w0)) =
       [Ffmpeg ''/in/a_(10).mkv'' ''/in/a_(10).mp3'',
        Print (Stamped (ConversionCompleted ''/in/a_(10).mkv'' ''/in/a_(10).mp3''))]
   \<and> finished (trace (snd (w_transcribe_single_file env_fail ''tiny'' ''cpu'' ''a_(10).mkv'' ''/in'' ''/out''
         ''English'' w0))) = [''a_(10).mkv'']
   \<and> written (trace (snd (w_transcribe_single_file env_fail ''tiny'' ''cpu'' ''a_(10).mkv'' ''/in'' ''/out''
         ''English'' w0))) = [(''/out/a_(10).txt'', ''text of video'')]
   \<and> trace (snd (convert_to_mp3 env_fail ''/in/a_(10).mkv'' ''/in/a_(10).mp3'' w0)) =
       [Ffmpeg ''/in/a_(10).mkv'' ''/in/a_(10).mp3'',
        Print (Stamped (ConversionError ''/in/a_(10).mkv'' (CalledProcessError 1)))]
   \<and> written (trace (snd (transcribe_single_file env_fail m0 ''a_(10).mkv'' ''/in'' ''/out''
         ''English'' w0))) = []"
  by code_simp

text \<open>
  What \<open>transcriber.py\<close> does on every such failure: the error line, then the
  transcription of the missing mp3 fails and its error is printed; no exception
  escapes and the file system is unchanged.
\<close>

lemma conversion_failure_is_reported_and_file_skipped:
  assumes "lower (snd (splitext file)) \<in> set EXTENSIONS_REQUIRING_CONVERSION"
    and "\<not> exists w (mp3_sibling ip file)"
    and "ffmpeg env (join ip file) (fs w (join ip file)) = Inr (status, None)"
    and "status \<noteq> 0"
  shows "transcribe_single_file env m file ip out lang w =
           (None, w\<lparr>trace := trace w @
              [Print (Plain (FileHeader file)),
               Print (Stamped (ConversionStart file (snd (splitext file)))),
               Ffmpeg (join ip file) (mp3_sibling ip file),
               Print (Stamped (ConversionError (join ip file) (CalledProcessError status))),
               Print (Stamped (TranscriptionStart file)),
               Transcribe m (mp3_sibling ip file) lang,
               Print (Stamped (TranscriptionError file (LoadAudioError (mp3_sibling ip file))))]\<rparr>)"
proof -
  have sup: "lower (snd (splitext file)) \<in> set EXTENSIONS_SUPPORTED"
    using assms(1) by (rule conversion_subset)
  show ?thesis
    using assms sup
    by (simp add: transcribe_single_file_def conversion_branch_def convert_to_mp3_def
        subprocess_run_def transcribe_and_save_def model_transcribe_def Let_def emit_def
        exists_def)
qed

text \<open>
  What \<open>transcriber.py\<close> does when the converter cannot be started: the exception is
  not caught by \<open>convert_to_mp3\<close> and leaves \<open>transcribe_single_file\<close> before the
  \<open>try\<close> is reached.
\<close>

lemma converter_that_cannot_start_ends_the_file:
  assumes "lower (snd (splitext file)) \<in> set EXTENSIONS_REQUIRING_CONVERSION"
    and "\<not> exists w (mp3_sibling ip file)"
    and "ffmpeg env (join ip file) (fs w (join ip file)) = Inl (OSError x)"
  shows "transcribe_single_file env m file ip out lang w =
           (Some (OSError x), w\<lparr>trace := trace w @
              [Print (Plain (FileHeader file)),
               Print (Stamped (ConversionStart file (snd (splitext file)))),
               Ffmpeg (join ip file) (mp3_sibling ip file)]\<rparr>)"
proof -
  have sup: "lower (snd (splitext file)) \<in> set EXTENSIONS_SUPPORTED"
    using assms(1) by (rule conversion_subset)
  show ?thesis
    using assms sup
    by (simp add: transcribe_single_file_def conversion_branch_def convert_to_mp3_def
        subprocess_run_def Let_def emit_def exists_def)
qed

text \<open>
  The two scripts on every file with an extension of the conversion list whose
  processing reaches the model: \<open>transcriber.py\<close> hands it the mp3 sibling,
  \<open>whisper_transcriber.py\<close> the input path.
\<close>

lemma newer_script_transcribes_the_mp3_sibling:
  assumes "lower (snd (splitext file)) \<in> set EXTENSIONS_REQUIRING_CONVERSION"
    and "exists w (mp3_sibling ip file) \<or> converter_starts env"
  shows "transcribed (trace (snd (transcribe_single_file env m file ip out lang w))) =
           transcribed (trace w) @ [(m, mp3_sibling ip file)]"
  using transcribe_single_file_obs(4)[OF conversion_subset[OF assms(1)],
      where ?ip = ip and ?w = w and ?env = env and ?m = m and ?out = out and ?lang = lang]
    assms
  by (auto simp add: resolved_def)

lemma older_script_transcribes_the_input_path:
  assumes "lower (snd (splitext file)) \<in> set EXTENSIONS_REQUIRING_CONVERSION"
    and "load env name dev = None"
    and "exists w (mp3_sibling ip file) \<or> converter_starts env"
  shows "transcribed (trace (snd (w_transcribe_single_file env name dev file ip out lang w))) =
           transcribed (trace w) @
             [(\<lparr>model_name = name, device = dev, instance_id = length (loads (trace w))\<rparr>,
               join ip file)]"
  using w_transcribe_single_file_obs(4)[OF conversion_subset[OF assms(1)] assms(2),
      where ?ip = ip and ?w = w and ?out = out and ?lang = lang] assms(3)
  by auto

end
